theory Spec2Isabelle
  imports Main "HOL-Library.Word" "HOL-Library.Sublist"
begin

section \<open>Python strings\<close>

text \<open>
  The schema editor builds its statements from Python strings. The three string
  operations it uses are \<^verbatim>\<open>str.replace\<close>, \<^verbatim>\<open>str.join\<close> and the decimal and
  hexadecimal renderings of integers and bytes.
\<close>

definition quote_char :: char where
  "quote_char = CHR 0x27"

text \<open>
  \<^verbatim>\<open>s.replace(old, new)\<close> for a non-empty \<^verbatim>\<open>old\<close>: every non-overlapping occurrence,
  scanning from the left.
\<close>

function replace_all :: "string \<Rightarrow> string \<Rightarrow> string \<Rightarrow> string" where
  "replace_all old new s =
     (if old = [] \<or> s = [] then s
      else if prefix old s then new @ replace_all old new (drop (length old) s)
      else hd s # replace_all old new (tl s))"
  by pat_completeness auto
termination
  by (relation "measure (\<lambda>(old, new, s). length s)") (auto simp: neq_Nil_conv)

declare replace_all.simps [simp del]

text \<open>
  Python's \<^verbatim>\<open>str.replace\<close>: with an empty \<^verbatim>\<open>old\<close> the new text is inserted before
  every character and at the end (\<^verbatim>\<open>"ab".replace("", "-") == "-a-b-"\<close>).
\<close>

definition py_replace :: "string \<Rightarrow> string \<Rightarrow> string \<Rightarrow> string" where
  "py_replace s old new =
     (if old = [] then new @ concat (map (\<lambda>c. c # new) s) else replace_all old new s)"

text \<open>\<^verbatim>\<open>sep.join(xs)\<close>\<close>

fun py_join :: "string \<Rightarrow> string list \<Rightarrow> string" where
  "py_join sep [] = []"
| "py_join sep [x] = x"
| "py_join sep (x # y # ys) = x @ sep @ py_join sep (y # ys)"

definition digit_char :: "nat \<Rightarrow> char" where
  "digit_char d = ''0123456789abcdef'' ! d"

text \<open>\<^verbatim>\<open>str(n)\<close> for a non-negative integer.\<close>

fun str_nat :: "nat \<Rightarrow> string" where
  "str_nat n = (if n < 10 then [digit_char n] else str_nat (n div 10) @ [digit_char (n mod 10)])"

declare str_nat.simps [simp del]

text \<open>\<^verbatim>\<open>str(i)\<close>, also what \<^verbatim>\<open>'%d' % i\<close> prints.\<close>

definition str_int :: "int \<Rightarrow> string" where
  "str_int i = (if i < 0 then CHR ''-'' # str_nat (nat (- i)) else str_nat (nat i))"

text \<open>\<^verbatim>\<open>bytes.hex()\<close>: two lower-case hexadecimal digits for each byte.\<close>

definition hex_byte :: "8 word \<Rightarrow> string" where
  "hex_byte b = [digit_char (unat b div 16), digit_char (unat b mod 16)]"

definition bytes_hex :: "8 word list \<Rightarrow> string" where
  "bytes_hex bs = concat (map hex_byte bs)"

section \<open>Literal values and the value formatter\<close>

text \<open>
  The values \<^verbatim>\<open>quote_value\<close> distinguishes by \<^verbatim>\<open>isinstance\<close>. The temporal values
  and the UUID carry the text that Python's \<^verbatim>\<open>str()\<close> gives for them (the standard
  library renders them). A \<^verbatim>\<open>timedelta\<close> is an exact count of microseconds. Every
  other value is an integer, \<^verbatim>\<open>None\<close>, or an object given by its \<^verbatim>\<open>str()\<close> text.
\<close>

datatype pyvalue =
    PyStr string
  | PyDateTime string
  | PyDate string
  | PyTime string
  | PyBool bool
  | PyUUID string
  | PyBytes "8 word list"
  | PyTimedelta int
  | PyInt int
  | PyNone
  | PyOther string

text \<open>
  \<^verbatim>\<open>value / datetime.timedelta(seconds=1)\<close> is the true division of two microsecond
  counts, a float, which the f-string prints with \<^verbatim>\<open>str\<close>. A \<^verbatim>\<open>timedelta\<close> holds
  fewer than \<open>10 ^ 14\<close> seconds, so a whole number of seconds is a float without
  rounding, and Python prints it as the integer followed by \<^verbatim>\<open>.0\<close>. For a fractional
  number of seconds the text is the shortest decimal that reads back as the nearest
  double; that rendering is the parameter \<open>str_float\<close>, given the microsecond count.
\<close>

definition timedelta_seconds_text :: "(int \<Rightarrow> string) \<Rightarrow> int \<Rightarrow> string" where
  "timedelta_seconds_text str_float us =
     (if us mod 1000000 = 0 then str_int (us div 1000000) @ ''.0'' else str_float us)"

text \<open>\<^verbatim>\<open>str(value)\<close> for the values of the fallback branch and of the f-strings.\<close>

fun py_str :: "pyvalue \<Rightarrow> string" where
  "py_str (PyStr s) = s"
| "py_str (PyDateTime s) = s"
| "py_str (PyDate s) = s"
| "py_str (PyTime s) = s"
| "py_str (PyBool b) = (if b then ''True'' else ''False'')"
| "py_str (PyUUID s) = s"
| "py_str (PyInt i) = str_int i"
| "py_str PyNone = ''None''"
| "py_str (PyOther s) = s"
| "py_str (PyBytes bs) = ''b'' @ [quote_char] @ bytes_hex bs @ [quote_char]"
| "py_str (PyTimedelta us) = str_int us"

text \<open>
  The last two equations of \<open>py_str\<close> are never reached from \<open>quote_value\<close>, which
  handles bytes and durations before its fallback.
\<close>

definition escape_quotes :: "string \<Rightarrow> string" where
  "escape_quotes s = py_replace s [quote_char] [quote_char, quote_char]"

text \<open>\<^verbatim>\<open>quote_value\<close>, with the \<^verbatim>\<open>isinstance\<close> tests in the order of the source.\<close>

fun quote_value :: "(int \<Rightarrow> string) \<Rightarrow> pyvalue \<Rightarrow> string" where
  "quote_value sf (PyDateTime s) = [quote_char] @ escape_quotes s @ [quote_char]"
| "quote_value sf (PyDate s) = [quote_char] @ escape_quotes s @ [quote_char]"
| "quote_value sf (PyTime s) = [quote_char] @ escape_quotes s @ [quote_char]"
| "quote_value sf (PyStr s) = [quote_char] @ escape_quotes s @ [quote_char]"
| "quote_value sf (PyBool b) = (if b then ''1'' else ''0'')"
| "quote_value sf (PyUUID s) = [quote_char] @ s @ [quote_char]"
| "quote_value sf (PyBytes bs) = ''BLOB(X'' @ [quote_char] @ bytes_hex bs @ [quote_char] @ '')''"
| "quote_value sf (PyTimedelta us) = timedelta_seconds_text sf us"
| "quote_value sf v = py_str v"

definition prepare_default :: "(int \<Rightarrow> string) \<Rightarrow> pyvalue \<Rightarrow> string" where
  "prepare_default sf v = quote_value sf v"

text \<open>Every character of a text, with each quote character written twice.\<close>

definition double_quotes :: "string \<Rightarrow> string" where
  "double_quotes s = concat (map (\<lambda>c. if c = quote_char then [quote_char, quote_char] else [c]) s)"

text \<open>
  A text has no unescaped quote when its quote characters come in adjacent pairs.
\<close>

fun quotes_paired :: "string \<Rightarrow> bool" where
  "quotes_paired [] = True"
| "quotes_paired [c] = (c \<noteq> quote_char)"
| "quotes_paired (c # d # s) =
     (if c = quote_char then d = quote_char \<and> quotes_paired s else quotes_paired (d # s))"

section \<open>Fields, constraints and statements\<close>

text \<open>
  \<^verbatim>\<open>field.default\<close>: Django's \<^verbatim>\<open>NOT_PROVIDED\<close> marker, or a value (\<^verbatim>\<open>None\<close> included).
  \<^verbatim>\<open>field.has_default()\<close> is \<^verbatim>\<open>field.default is not NOT_PROVIDED\<close>.
\<close>

datatype pydefault = NotProvided | Default pyvalue

definition has_default :: "pydefault \<Rightarrow> bool" where
  "has_default d = (d \<noteq> NotProvided)"

text \<open>
  The link table of a many-to-many relation: \<^verbatim>\<open>through._meta.auto_created\<close>,
  \<^verbatim>\<open>through._meta.db_table\<close>, and the column of
  \<^verbatim>\<open>through._meta.get_field(field.m2m_reverse_field_name())\<close>.
\<close>

record through_model =
  auto_created :: bool
  through_table :: string
  reverse_column :: string

text \<open>
  \<^verbatim>\<open>field.remote_field\<close>. \<open>through\<close> is \<open>None\<close> when the relation has no attribute
  \<^verbatim>\<open>through\<close> (a foreign key), \<open>Some None\<close> when the attribute is \<^verbatim>\<open>None\<close>. \<open>to_table\<close>
  and \<open>to_column\<close> are \<^verbatim>\<open>remote_field.model._meta.db_table\<close> and
  \<^verbatim>\<open>remote_field.get_related_field().column\<close>. \<open>meta_table\<close> is the \<^verbatim>\<open>_meta.db_table\<close> of the
  relation object itself, which the branch for Django before 1.9 reads; \<open>None\<close> when the
  object has no \<^verbatim>\<open>_meta\<close>.
\<close>

record remote =
  through :: "through_model option option"
  to_table :: string
  to_column :: string
  meta_table :: "string option"

text \<open>
  An entry \<^verbatim>\<open>inc_rel\<close> of \<^verbatim>\<open>get_all_related_objects()\<close>, as the planner reads it:
  \<^verbatim>\<open>inc_rel.model._meta.db_table\<close>, \<^verbatim>\<open>inc_rel.field.column\<close>, and the entry \<^verbatim>\<open>type\<close> of
  \<^verbatim>\<open>inc_rel.field.db_parameters(connection)\<close>.
\<close>

record related =
  rel_table :: string
  rel_column :: string
  rel_type :: "string option"

text \<open>
  A field, with what the schema editor reads from it. \<open>db_type\<close> and \<open>db_check\<close> are the
  entries \<^verbatim>\<open>type\<close> and \<^verbatim>\<open>check\<close> of \<^verbatim>\<open>field.db_parameters(connection)\<close>; the four \<open>is_\<close>
  flags are the results of the \<^verbatim>\<open>isinstance\<close> tests; \<open>u_unique\<close> is the attribute
  \<^verbatim>\<open>_unique\<close>; \<open>effective_default\<close> is the result of \<^verbatim>\<open>self.effective_default(field)\<close>
  (\<open>PyNone\<close> for \<^verbatim>\<open>None\<close>);
  \<open>model_fields\<close> lists, for each entry \<^verbatim>\<open>f\<close> of \<^verbatim>\<open>field.model._meta.get_fields()\<close>, the table
  of \<^verbatim>\<open>f.model\<close> and the column of \<^verbatim>\<open>f.field\<close>, or \<open>None\<close> when the entry has no attribute
  \<^verbatim>\<open>field\<close> (only the relation objects have one); \<open>related_objects\<close> is
  \<^verbatim>\<open>field.model._meta.get_all_related_objects()\<close>, or \<open>None\<close> when the model's options have
  no such method (Django removed it in 1.10).
\<close>

record field =
  column :: string
  db_type :: "string option"
  db_check :: "string option"
  is_AutoField :: bool
  is_IntegerField :: bool
  is_TextField :: bool
  is_ManyToManyField :: bool
  null_f :: bool
  primary_key :: bool
  u_unique :: bool
  db_index :: bool
  default_f :: pydefault
  effective_default :: pyvalue
  remote_field :: "remote option"
  model_fields :: "(string \<times> string) option list"
  related_objects :: "related list option"

text \<open>Django's property \<^verbatim>\<open>Field.unique\<close>: \<^verbatim>\<open>self._unique or self.primary_key\<close>.\<close>

definition unique :: "field \<Rightarrow> bool" where
  "unique f = (u_unique f \<or> primary_key f)"

text \<open>The truth value of an optional string such as \<^verbatim>\<open>db_parameters['check']\<close>.\<close>

definition truthy :: "string option \<Rightarrow> bool" where
  "truthy x = (case x of None \<Rightarrow> False | Some t \<Rightarrow> t \<noteq> [])"

text \<open>\<^verbatim>\<open>'%s' % x\<close> for an optional string.\<close>

definition text_of :: "string option \<Rightarrow> string" where
  "text_of x = (case x of None \<Rightarrow> ''None'' | Some t \<Rightarrow> t)"

text \<open>An entry of the catalog that \<^verbatim>\<open>get_constraints\<close> returns.\<close>

record constr =
  columns :: "string list"
  c_primary_key :: bool
  c_unique :: bool
  c_index :: bool
  c_check :: bool
  c_foreign_key :: "(string \<times> string) option"

text \<open>
  The changes that the template \<^verbatim>\<open>sql_alter_column\<close> wraps: \<^verbatim>\<open>sql_alter_column_type\<close>,
  \<^verbatim>\<open>sql_alter_column_type_from_int_to_auto\<close> (column and start value),
  \<^verbatim>\<open>sql_alter_column_not_null\<close>, \<^verbatim>\<open>sql_alter_column_null\<close>, \<^verbatim>\<open>sql_alter_column_default\<close>.
\<close>

datatype change =
    SetDataType string string
  | IdentityFromInt string int
  | SetNotNull string
  | DropNotNull string
  | SetDefault string string

text \<open>
  A statement is a template together with the values of its placeholders, in the order
  of the source. The three calls into the base class are events of their own:
  \<open>CreateColumn\<close> stands for the base class's \<^verbatim>\<open>add_field(model, field)\<close>, which adds
  the column of the field as it is passed; \<open>RemoveField\<close> for the base class's
  \<^verbatim>\<open>remove_field(model, field)\<close>, which drops the column of the field; and
  \<open>AlterManyToManyBase\<close> for the base class's \<^verbatim>\<open>_alter_many_to_many\<close>.
\<close>

datatype stmt =
    CreateColumn string field
  | DeleteColumn string string
  | AlterColumn string change
  | RenameColumn string string string
  | DropDefault string string
  | DropPk string
  | DeletePk string string
  | DeleteUnique string string
  | DeleteIndex string
  | DeleteCheck string string
  | DeleteFk string string
  | CreatePk string string string
  | CreateUnique string string string
  | CreateIndex string string string string
  | CreateCheck string string string string
  | CreateFk string string string string string
  | UpdateCopy string string string
  | RemoveField string field
  | Reorg string string
  | AlterManyToManyBase string string

section \<open>The engine and the editor's state\<close>

datatype event = Done stmt | Failed stmt

datatype error = ValueError string | DatabaseError stmt | AttributeError | KeyError string

text \<open>
  The statement templates that the class does not define itself and takes from Django's
  \<^verbatim>\<open>BaseDatabaseSchemaEditor\<close>. Their texts, and so the placeholders that
  \<^verbatim>\<open>template % {...}\<close> looks up, depend on the Django release.
\<close>

datatype template =
    SqlAlterColumn
  | SqlAlterColumnNull
  | SqlAlterColumnNotNull
  | SqlAlterColumnDefault
  | SqlRenameColumn
  | SqlDeleteColumn
  | SqlCreateCheck
  | SqlDeleteCheck
  | SqlCreateUnique
  | SqlCreateIndex
  | SqlDeleteIndex
  | SqlDeleteFk

text \<open>
  The first argument of \<^verbatim>\<open>_create_index_name\<close>: the source passes the model at all call
  sites but one, where it passes the name of the table.
\<close>

datatype name_arg = ByModel string | ByTable string

text \<open>
  The state of one call: every statement passed to \<^verbatim>\<open>execute\<close> so far, with its
  outcome, and the exception in flight, if any.
\<close>

record state =
  trace :: "event list"
  err :: "error option"

datatype ckind = KPrimaryKey | KUnique | KIndex | KCheck | KForeignKey

text \<open>
  What the editor takes from its surroundings. The engine is deterministic: whether it
  rejects a statement, and what its catalog answers, depends on the statements it has
  received. \<open>constraint_names\<close> is the base class's \<^verbatim>\<open>_constraint_names\<close> (table, column
  list, kind), \<open>get_constraints\<close> the introspection's catalog of a table (a dictionary, in
  its order), \<open>select_max\<close> the row that \<^verbatim>\<open>SELECT MAX(column) from table\<close> returns
  (\<open>None\<close> for SQL NULL), \<open>reorg_pending\<close> the schema and table names with a pending
  reorganisation, \<open>primary_keys\<close> the \<^verbatim>\<open>PK_NAME\<close> of each primary key of a table.
  \<open>placeholders\<close> gives the keys \<^verbatim>\<open>%(key)s\<close> of an inherited template, in the order of its
  text. \<open>create_index_name\<close> is the base class's \<^verbatim>\<open>_create_index_name\<close>, \<open>None\<close> when it
  raises (older releases of Django take a model, newer ones the name of a table).
  \<open>field_has_rel\<close> tells whether a field has the attribute \<^verbatim>\<open>rel\<close>, which names its
  \<^verbatim>\<open>remote_field\<close> until Django 2.0.
\<close>

record env =
  quote_name :: "string \<Rightarrow> string"
  truncate_name :: "string \<Rightarrow> nat \<Rightarrow> string"
  max_name_length :: nat
  create_index_name :: "name_arg \<Rightarrow> string list \<Rightarrow> string \<Rightarrow> string option"
  placeholders :: "template \<Rightarrow> string list"
  str_float :: "int \<Rightarrow> string"
  django_lt_1_9 :: bool
  field_has_rel :: bool
  rejects :: "event list \<Rightarrow> stmt \<Rightarrow> bool"
  constraint_names :: "event list \<Rightarrow> string \<Rightarrow> string list \<Rightarrow> ckind \<Rightarrow> string list"
  get_constraints :: "event list \<Rightarrow> string \<Rightarrow> (string \<times> constr) list"
  select_max :: "event list \<Rightarrow> string \<Rightarrow> string \<Rightarrow> int option"
  reorg_pending :: "event list \<Rightarrow> (string \<times> string) list"
  primary_keys :: "event list \<Rightarrow> string \<Rightarrow> string list"

definition psudo_column_prefix :: string where
  "psudo_column_prefix = ''psudo_''"

text \<open>\<^verbatim>\<open>self.execute(sql)\<close>: nothing runs while an exception is in flight.\<close>

definition execute :: "env \<Rightarrow> stmt \<Rightarrow> state \<Rightarrow> state" where
  "execute e st s =
     (case err s of
        Some x \<Rightarrow> s
      | None \<Rightarrow>
          if rejects e (trace s) st
          then s\<lparr>trace := trace s @ [Failed st], err := Some (DatabaseError st)\<rparr>
          else s\<lparr>trace := trace s @ [Done st]\<rparr>)"

definition raise :: "error \<Rightarrow> state \<Rightarrow> state" where
  "raise x s = (case err s of Some y \<Rightarrow> s | None \<Rightarrow> s\<lparr>err := Some x\<rparr>)"

text \<open>
  \<^verbatim>\<open>template % {...}\<close> for an inherited template and the keys of the dictionary: the
  first placeholder of the template that the dictionary lacks raises \<^verbatim>\<open>KeyError\<close>.
\<close>

definition format :: "env \<Rightarrow> template \<Rightarrow> string list \<Rightarrow> state \<Rightarrow> state" where
  "format e t ks s =
     (case find (\<lambda>k. k \<notin> set ks) (placeholders e t) of
        None \<Rightarrow> s
      | Some k \<Rightarrow> raise (KeyError k) s)"

text \<open>\<^verbatim>\<open>self.execute(template % {...})\<close> for an inherited template.\<close>

definition execute_formatted :: "env \<Rightarrow> template \<Rightarrow> string list \<Rightarrow> stmt \<Rightarrow> state \<Rightarrow> state" where
  "execute_formatted e t ks st s = execute e st (format e t ks s)"

text \<open>A step that needs a name from \<^verbatim>\<open>_create_index_name\<close>.\<close>

definition with_index_name ::
  "env \<Rightarrow> name_arg \<Rightarrow> string list \<Rightarrow> string \<Rightarrow> (string \<Rightarrow> state \<Rightarrow> state) \<Rightarrow> state \<Rightarrow> state" where
  "with_index_name e m cols sfx F s =
     (case create_index_name e m cols sfx of
        None \<Rightarrow> raise AttributeError s
      | Some name \<Rightarrow> F name s)"

text \<open>\<^verbatim>\<open>for x in xs: self.execute(stmt(x))\<close>\<close>

definition execute_each :: "env \<Rightarrow> ('a \<Rightarrow> stmt) \<Rightarrow> 'a list \<Rightarrow> state \<Rightarrow> state" where
  "execute_each e f xs s = fold (\<lambda>x. execute e (f x)) xs s"

text \<open>\<^verbatim>\<open>for x in xs: self.execute(template % {...})\<close>\<close>

definition execute_each_formatted ::
  "env \<Rightarrow> template \<Rightarrow> string list \<Rightarrow> ('a \<Rightarrow> stmt) \<Rightarrow> 'a list \<Rightarrow> state \<Rightarrow> state" where
  "execute_each_formatted e t ks f xs s = fold (\<lambda>x. execute_formatted e t ks (f x)) xs s"

text \<open>\<^verbatim>\<open>_reorg_tables\<close>\<close>

definition reorg_tables :: "env \<Rightarrow> state \<Rightarrow> state" where
  "reorg_tables e s =
     execute_each e (\<lambda>(sName, tName). Reorg sName tName) (reorg_pending e (trace s)) s"

text \<open>
  A statement built from the property \<^verbatim>\<open>sql_create_pk\<close>: reading the property
  reorganises the pending tables, before the statement is executed.
\<close>

definition sql_create_pk :: "env \<Rightarrow> string \<Rightarrow> string \<Rightarrow> string \<Rightarrow> state \<Rightarrow> state" where
  "sql_create_pk e table name cols s = execute e (CreatePk table name cols) (reorg_tables e s)"

text \<open>\<^verbatim>\<open>try: body except: pass\<close>\<close>

definition try_pass :: "(state \<Rightarrow> state) \<Rightarrow> state \<Rightarrow> state" where
  "try_pass body s = (case err s of Some x \<Rightarrow> s | None \<Rightarrow> (body s)\<lparr>err := None\<rparr>)"

section \<open>Deferring and restoring constraints\<close>

text \<open>
  The four dictionaries of \<^verbatim>\<open>deferred_constraints\<close>, each from a constraint's name to
  its column list, in insertion order.
\<close>

record deferred =
  d_pk :: "(string \<times> string list) list"
  d_unique :: "(string \<times> string list) list"
  d_index :: "(string \<times> string list) list"
  d_check :: "(string \<times> string list) list"

definition no_deferred :: deferred where
  "no_deferred = \<lparr>d_pk = [], d_unique = [], d_index = [], d_check = []\<rparr>"

text \<open>\<^verbatim>\<open>d[k] = v\<close> on a dictionary kept in insertion order.\<close>

fun dict_set :: "'k \<Rightarrow> 'v \<Rightarrow> ('k \<times> 'v) list \<Rightarrow> ('k \<times> 'v) list" where
  "dict_set k v [] = [(k, v)]"
| "dict_set k v (p # ps) = (if fst p = k then (k, v) # ps else p # dict_set k v ps)"

text \<open>
  One round of the loop of \<^verbatim>\<open>_defer_constraints_check\<close>, for the catalog entry
  \<open>(constr_name, constr_dict)\<close>. The two \<^verbatim>\<open>continue\<close> of the source end the round; a failed
  drop of a unique constraint or of an index is caught, with whatever the formatting of
  \<^verbatim>\<open>sql_delete_index\<close> raises.
\<close>

definition defer_one ::
  "env \<Rightarrow> string \<Rightarrow> string \<Rightarrow> bool \<Rightarrow> bool \<Rightarrow> bool \<Rightarrow> bool \<Rightarrow>
   string \<times> constr \<Rightarrow> deferred \<times> state \<Rightarrow> deferred \<times> state" where
  "defer_one e old_column table defer_pk defer_unique defer_index defer_check entry ds =
     (let constr_name = fst entry; constr_dict = snd entry; d = fst ds; s = snd ds;
          touches = (old_column \<in> set (columns constr_dict))
      in if err s \<noteq> None then (d, s)
         else if defer_pk \<and> c_primary_key constr_dict \<and> touches then
           (let s1 = execute e (DeletePk table constr_name) s
            in if err s1 \<noteq> None then (d, s1)
               else (d\<lparr>d_pk := dict_set constr_name (columns constr_dict) (d_pk d)\<rparr>, s1))
         else if defer_unique \<and> c_unique constr_dict \<and> touches then
           (let s1 = execute e (DeleteUnique table constr_name) s
            in if err s1 \<noteq> None then (d, s1\<lparr>err := None\<rparr>)
               else (d\<lparr>d_unique := dict_set constr_name (columns constr_dict) (d_unique d)\<rparr>, s1))
         else
           (let ds1 =
                  (if defer_index \<and> c_index constr_dict \<and> touches then
                     (let s1 = execute_formatted e SqlDeleteIndex [''table'', ''name'']
                                (DeleteIndex constr_name) s
                      in if err s1 \<noteq> None then (d, s1\<lparr>err := None\<rparr>)
                         else (d\<lparr>d_index := dict_set constr_name (columns constr_dict) (d_index d)\<rparr>, s1))
                   else (d, s));
                d1 = fst ds1; s1 = snd ds1
            in if defer_check \<and> c_check constr_dict \<and> touches then
                 (let s2 = execute_formatted e SqlDeleteCheck [''table'', ''name'']
                            (DeleteCheck table constr_name) s1
                  in if err s2 \<noteq> None then (d1, s2)
                     else (d1\<lparr>d_check := dict_set constr_name (columns constr_dict) (d_check d1)\<rparr>, s2))
               else (d1, s1)))"

text \<open>
  \<^verbatim>\<open>_defer_constraints_check\<close>. Of the two fields it reads the column names only, so
  the model takes \<^verbatim>\<open>old_field.column\<close> and \<^verbatim>\<open>new_field.column\<close>; the table name is used
  as it is, unquoted.
\<close>

definition defer_constraints_check ::
  "env \<Rightarrow> (string \<times> constr) list \<Rightarrow> deferred \<Rightarrow> string \<Rightarrow> string \<Rightarrow> string \<Rightarrow>
   bool \<Rightarrow> bool \<Rightarrow> bool \<Rightarrow> bool \<Rightarrow> state \<Rightarrow> deferred \<times> state" where
  "defer_constraints_check e constraints deferred_constraints old_column new_column table
       defer_pk defer_unique defer_index defer_check s =
     fold (defer_one e old_column table defer_pk defer_unique defer_index defer_check)
       constraints (deferred_constraints, s)"

text \<open>
  \<^verbatim>\<open>', '.join(column.replace(old_field.column, new_field.column) for column in columns)\<close>
\<close>

definition restored_columns :: "string \<Rightarrow> string \<Rightarrow> string list \<Rightarrow> string" where
  "restored_columns old_column new_column cols =
     py_join '', '' (map (\<lambda>c. py_replace c old_column new_column) cols)"

text \<open>
  \<^verbatim>\<open>_restore_constraints_check\<close>: the primary keys, then the unique constraints, then
  the indexes; the dictionary of check constraints is not read. The statements of the
  unique constraints and of the indexes come from the inherited templates
  \<^verbatim>\<open>sql_create_unique\<close> and \<^verbatim>\<open>sql_create_index\<close>, formatted with three and with four keys.
\<close>

definition restore_constraints_check ::
  "env \<Rightarrow> deferred \<Rightarrow> string \<Rightarrow> string \<Rightarrow> string \<Rightarrow> state \<Rightarrow> state" where
  "restore_constraints_check e deferred_constraints old_column new_column table s =
     (let s1 = fold (\<lambda>(pk_name, cols).
                   sql_create_pk e table pk_name (restored_columns old_column new_column cols))
                 (d_pk deferred_constraints) s;
          s2 = execute_each_formatted e SqlCreateUnique [''table'', ''name'', ''columns'']
                 (\<lambda>(constr_name, cols).
                   CreateUnique table constr_name (restored_columns old_column new_column cols))
                 (d_unique deferred_constraints) s1
      in execute_each_formatted e SqlCreateIndex [''table'', ''name'', ''columns'', ''extra'']
                 (\<lambda>(index_name, cols).
                   CreateIndex table index_name (restored_columns old_column new_column cols) [])
                 (d_index deferred_constraints) s2)"

section \<open>Adding a column\<close>

text \<open>
  \<^verbatim>\<open>try: body except Error as e: self.execute(del_column); raise e\<close>. The statements
  are the only source of \<^verbatim>\<open>Database.Error\<close>. When the compensating statement fails
  too, its own error is the one that propagates.
\<close>

definition try_drop_column :: "env \<Rightarrow> stmt \<Rightarrow> (state \<Rightarrow> state) \<Rightarrow> state \<Rightarrow> state" where
  "try_drop_column e del_column body s =
     (case err s of
        Some x \<Rightarrow> s
      | None \<Rightarrow>
          (let s1 = body s
           in case err s1 of
                Some (DatabaseError x) \<Rightarrow>
                  raise (DatabaseError x) (execute e del_column (s1\<lparr>err := None\<rparr>))
              | _ \<Rightarrow> s1))"

text \<open>
  The test of \<^verbatim>\<open>add_field\<close> on the relation:
  \<^verbatim>\<open>field.remote_field.through._meta.auto_created\<close> when the relation has the attribute
  \<^verbatim>\<open>through\<close>, which raises when that attribute is \<^verbatim>\<open>None\<close>.
\<close>

definition add_rel_condition :: "field \<Rightarrow> bool option" where
  "add_rel_condition f =
     (case remote_field f of
        None \<Rightarrow> Some False
      | Some r \<Rightarrow>
          (case through r of
             None \<Rightarrow> Some False
           | Some None \<Rightarrow> None
           | Some (Some t) \<Rightarrow> Some (auto_created t)))"

text \<open>
  \<^verbatim>\<open>add_field\<close>. The field object is changed in place, so the model returns it with
  the state. \<^verbatim>\<open>unique\<close> is read after \<^verbatim>\<open>primary_key\<close> has been cleared. The statements
  \<^verbatim>\<open>del_column\<close> and \<^verbatim>\<open>sql\<close> are formatted, and the other primary keys are dropped,
  outside the \<^verbatim>\<open>try\<close> blocks.
\<close>

definition add_field :: "env \<Rightarrow> string \<Rightarrow> field \<Rightarrow> state \<Rightarrow> field \<times> state" where
  "add_field e table field0 s0 =
     (let notnull = \<not> null_f field0;
          field1 = field0\<lparr>null_f := True\<rparr>;
          p_key = primary_key field1;
          field2 = field1\<lparr>primary_key := False\<rparr>;
          uniq = unique field2;
          field3 = field2\<lparr>u_unique := False\<rparr>;
          s1 = execute e (CreateColumn table field3) s0
      in if err s1 \<noteq> None then (field3, s1)
         else case add_rel_condition field3 of
           None \<Rightarrow> (field3, raise AttributeError s1)
         | Some rel_condition \<Rightarrow>
             if is_ManyToManyField field3 \<and> rel_condition then (field3, s1)
             else
               (let s2 = reorg_tables e s1
                in if err s2 \<noteq> None then (field3, s2)
                   else if notnull \<or> uniq \<or> p_key then
                     (let del_column =
                            DeleteColumn (quote_name e table) (quote_name e (column field3));
                          s2a = format e SqlDeleteColumn [''table'', ''column''] s2
                      in if err s2a \<noteq> None then (field3, s2a)
                         else
                           (let field4 = (if notnull then field3\<lparr>null_f := False\<rparr> else field3);
                                s3 = (if notnull then
                                        try_drop_column e del_column
                                          (\<lambda>s. reorg_tables e
                                             (execute e (AlterColumn (quote_name e table)
                                                  (SetNotNull (quote_name e (column field3)))) s))
                                          (format e SqlAlterColumn [''table'', ''changes'']
                                             (format e SqlAlterColumnNotNull [''column''] s2a))
                                      else s2a)
                            in if err s3 \<noteq> None then (field4, s3)
                               else if p_key then
                                 (let field5 = field4\<lparr>primary_key := True\<rparr>;
                                      s4 = execute_each e
                                             (\<lambda>other_pk. DeletePk (quote_name e table) other_pk)
                                             (primary_keys e (trace s3) table) s3;
                                      s5 = reorg_tables e s4
                                  in (field5,
                                      with_index_name e (ByModel table) [column field5] ''_pk''
                                        (\<lambda>name. try_drop_column e del_column
                                           (\<lambda>s. reorg_tables e
                                              (execute e (CreatePk (quote_name e table) name
                                                   (quote_name e (column field5))) s)))
                                        s5))
                               else if uniq then
                                 (let field5 = field4\<lparr>u_unique := True\<rparr>
                                  in (field5,
                                      with_index_name e (ByModel table) [column field5] ''_uniq''
                                        (\<lambda>constraint_name s.
                                           try_drop_column e del_column
                                             (\<lambda>s. reorg_tables e
                                                (execute e (CreateUnique (quote_name e table)
                                                     constraint_name
                                                     (quote_name e (column field5))) s))
                                             (format e SqlCreateUnique
                                                [''table'', ''name'', ''columns''] s))
                                        s3))
                               else (field4, s3)))
                   else (field3, s2)))"

text \<open>The base class's \<^verbatim>\<open>remove_field(model, field)\<close>.\<close>

definition remove_field :: "env \<Rightarrow> string \<Rightarrow> field \<Rightarrow> state \<Rightarrow> state" where
  "remove_field e table f s = execute e (RemoveField table f) s"

text \<open>\<^verbatim>\<open>alterFieldDataTypeByRemaking\<close>; it returns the pair that replaces (old, new).\<close>

definition alterFieldDataTypeByRemaking ::
  "env \<Rightarrow> string \<Rightarrow> field \<Rightarrow> field \<Rightarrow> bool \<Rightarrow> state \<Rightarrow> (field \<times> field) \<times> state" where
  "alterFieldDataTypeByRemaking e table old_field new_field strict s =
     (let tmp_new_field =
            new_field\<lparr>column := truncate_name e (psudo_column_prefix @ column new_field)
                                  (max_name_length e)\<rparr>;
          added = add_field e table tmp_new_field s;
          tmp_new_field = fst added;
          s1 = execute e (UpdateCopy (quote_name e table) (quote_name e (column tmp_new_field))
                            (quote_name e (column old_field))) (snd added);
          s2 = remove_field e table old_field s1
      in ((tmp_new_field, new_field), s2))"

section \<open>Altering a field\<close>

text \<open>
  \<^verbatim>\<open>rel_condition\<close> of \<^verbatim>\<open>alter_field\<close>; \<open>None\<close> when the test raises (the old relation
  has a link table and the new field has no relation, or one without the attribute).
\<close>

definition rel_condition :: "field \<Rightarrow> field \<Rightarrow> bool option" where
  "rel_condition old_field new_field =
     (case remote_field old_field of
        None \<Rightarrow> Some False
      | Some r \<Rightarrow>
          (case through r of
             None \<Rightarrow> Some False
           | Some None \<Rightarrow> Some False
           | Some (Some ot) \<Rightarrow>
               (case remote_field new_field of
                  None \<Rightarrow> None
                | Some r' \<Rightarrow>
                    (case through r' of
                       None \<Rightarrow> None
                     | Some None \<Rightarrow> Some False
                     | Some (Some nt) \<Rightarrow> Some (auto_created ot \<and> auto_created nt)))))"

text \<open>
  \<^verbatim>\<open>_alter_many_to_many\<close>. It works on the link table of the old field and on the
  reverse columns of both link tables; the constraints are deferred without the check
  kind. The restoration is given \<^verbatim>\<open>new_field.rel.through\<close>, the link table of the new
  field where a field has the attribute \<^verbatim>\<open>rel\<close>.
\<close>

definition alter_many_to_many :: "env \<Rightarrow> string \<Rightarrow> field \<Rightarrow> field \<Rightarrow> bool \<Rightarrow> state \<Rightarrow> state" where
  "alter_many_to_many e table old_field new_field strict s =
     (case (remote_field old_field, remote_field new_field) of
        (Some r, Some r') \<Rightarrow>
          (case (through r, through r') of
             (Some (Some ot), Some (Some nt)) \<Rightarrow>
               (let constraints = get_constraints e (trace s) (through_table ot);
                    s1 = execute_each_formatted e SqlDeleteFk [''table'', ''name'']
                           (\<lambda>entry. DeleteFk (quote_name e (through_table ot)) (fst entry))
                           (filter (\<lambda>entry. c_foreign_key (snd entry) \<noteq> None) constraints) s;
                    ds = defer_constraints_check e constraints no_deferred
                           (reverse_column ot) (reverse_column nt) (through_table ot)
                           True True True False s1;
                    s2 = reorg_tables e (snd ds);
                    s3 = execute e (AlterManyToManyBase (through_table ot) (through_table nt)) s2
                in if field_has_rel e then
                     restore_constraints_check e (fst ds) (reverse_column ot) (reverse_column nt)
                       (through_table nt) s3
                   else raise AttributeError s3)
           | (Some None, Some x) \<Rightarrow> raise AttributeError s
           | (Some (Some ot), Some None) \<Rightarrow> raise AttributeError s
           | _ \<Rightarrow> s)
      | _ \<Rightarrow> s)"

text \<open>The test that sends a datatype change through the temporary column.\<close>

definition remake_needed :: "field \<Rightarrow> field \<Rightarrow> bool" where
  "remake_needed old_field new_field =
     (db_type old_field \<noteq> db_type new_field \<and>
      (is_AutoField old_field \<or> is_TextField old_field \<or> is_TextField new_field))"

text \<open>\<^verbatim>\<open>==\<close> on literal values: a boolean equals the integer 1 or 0.\<close>

fun py_eq :: "pyvalue \<Rightarrow> pyvalue \<Rightarrow> bool" where
  "py_eq (PyBool b) (PyInt i) = (i = (if b then 1 else 0))"
| "py_eq (PyInt i) (PyBool b) = (i = (if b then 1 else 0))"
| "py_eq a b = (a = b)"

text \<open>The flags that \<^verbatim>\<open>alter_field\<close> sets by comparing the two fields.\<close>

record flags =
  alter_field_data_type :: bool
  alter_field_nullable :: bool
  alter_field_default :: bool
  alter_field_primary_key :: bool
  alter_field_name :: bool
  alter_field_check_constraint :: bool
  alter_field_unique :: bool
  alter_field_index :: bool

definition diff_flags :: "field \<Rightarrow> field \<Rightarrow> flags" where
  "diff_flags old_field new_field =
     \<lparr>alter_field_data_type = (db_type old_field \<noteq> db_type new_field),
      alter_field_nullable = (null_f old_field \<noteq> null_f new_field),
      alter_field_default =
        (default_f old_field \<noteq> Default PyNone \<and> has_default (default_f old_field) \<and>
         \<not> py_eq (effective_default old_field) (effective_default new_field)),
      alter_field_primary_key = (primary_key old_field \<noteq> primary_key new_field),
      alter_field_name = (column old_field \<noteq> column new_field),
      alter_field_check_constraint = (db_check old_field \<noteq> db_check new_field),
      alter_field_unique = (unique old_field \<noteq> unique new_field),
      alter_field_index = (db_index old_field \<noteq> db_index new_field)\<rparr>"

text \<open>Need to remove Primary Key\<close>

definition drop_primary_key :: "env \<Rightarrow> string \<Rightarrow> field \<Rightarrow> flags \<Rightarrow> bool \<Rightarrow> state \<Rightarrow> state" where
  "drop_primary_key e table old_field fl strict s =
     (if alter_field_primary_key fl \<and> primary_key old_field then
        (if strict \<and> constraint_names e (trace s) table [column old_field] KPrimaryKey = [] then
           raise (ValueError (''Found no primary key in '' @ table @ ''.'' @ column old_field @ '' '')) s
         else execute e (DropPk (quote_name e table)) s)
      else s)"

text \<open>Need to remove unique Key\<close>

definition drop_unique :: "env \<Rightarrow> string \<Rightarrow> field \<Rightarrow> flags \<Rightarrow> bool \<Rightarrow> state \<Rightarrow> state" where
  "drop_unique e table old_field fl strict s =
     (if alter_field_unique fl \<and> unique old_field \<or>
         (unique old_field \<and> alter_field_primary_key fl \<and> \<not> primary_key old_field) then
        (let unique_key_names = constraint_names e (trace s) table [column old_field] KUnique
         in if strict \<and> length unique_key_names \<noteq> 1 then
              raise (ValueError ''Found wrong number of unique constraints for (table)s.(column)s'') s
            else execute_each e (\<lambda>unique_key_name. DeleteUnique (quote_name e table) unique_key_name)
                   unique_key_names s)
      else s)"

text \<open>Need to remove Index\<close>

definition drop_index :: "env \<Rightarrow> string \<Rightarrow> field \<Rightarrow> flags \<Rightarrow> bool \<Rightarrow> state \<Rightarrow> state" where
  "drop_index e table old_field fl strict s =
     (if alter_field_index fl \<and> db_index old_field then
        (let index_names = constraint_names e (trace s) table [column old_field] KIndex
         in if strict \<and> length index_names \<noteq> 1 then
              raise (ValueError ''Found wrong number of Indexes for (table)s.(column)s'') s
            else execute_each_formatted e SqlDeleteIndex [''name'']
                   (\<lambda>index_name. DeleteIndex index_name) index_names s)
      else s)"

text \<open>Need to remove check constraint\<close>

definition drop_check :: "env \<Rightarrow> string \<Rightarrow> field \<Rightarrow> flags \<Rightarrow> bool \<Rightarrow> state \<Rightarrow> state" where
  "drop_check e table old_field fl strict s =
     (if alter_field_check_constraint fl \<and> truthy (db_check old_field) then
        (let check_constraint_names = constraint_names e (trace s) table [column old_field] KCheck
         in if strict \<and> length check_constraint_names \<noteq> 1 then
              raise (ValueError ''Found wrong number of check constraints for (table)s.(column)s'') s
            else execute_each_formatted e SqlDeleteCheck [''table'', ''name'']
                   (\<lambda>check_constraint_name. DeleteCheck (quote_name e table) check_constraint_name)
                   check_constraint_names s)
      else s)"

text \<open>
  \<^verbatim>\<open>self.execute(self.sql_alter_column % {'table': ..., 'changes': sql})\<close>, after \<open>inner\<close>
  has formatted \<^verbatim>\<open>sql\<close>.
\<close>

definition alter_column ::
  "env \<Rightarrow> (state \<Rightarrow> state) \<Rightarrow> string \<Rightarrow> change \<Rightarrow> state \<Rightarrow> state" where
  "alter_column e inner table ch s =
     execute_formatted e SqlAlterColumn [''table'', ''changes''] (AlterColumn table ch) (inner s)"

text \<open>Need to remove Nullability\<close>

definition drop_nullability :: "env \<Rightarrow> string \<Rightarrow> field \<Rightarrow> flags \<Rightarrow> state \<Rightarrow> state" where
  "drop_nullability e table old_field fl s =
     (if alter_field_nullable fl \<and> null_f old_field then
        alter_column e (format e SqlAlterColumnNotNull [''column'']) (quote_name e table)
          (SetNotNull (quote_name e (column old_field))) s
      else s)"

text \<open>The five drop steps, in the order of the source.\<close>

definition drop_steps :: "env \<Rightarrow> string \<Rightarrow> field \<Rightarrow> flags \<Rightarrow> bool \<Rightarrow> state \<Rightarrow> state" where
  "drop_steps e table old_field fl strict s =
     drop_nullability e table old_field fl
       (drop_check e table old_field fl strict
          (drop_index e table old_field fl strict
             (drop_unique e table old_field fl strict
                (drop_primary_key e table old_field fl strict s))))"

text \<open>Drop all FK constraints, if require we will make it again\<close>

definition drop_foreign_keys :: "env \<Rightarrow> string \<Rightarrow> field \<Rightarrow> state \<Rightarrow> state" where
  "drop_foreign_keys e table old_field s =
     (if remote_field old_field \<noteq> None then
        execute_each_formatted e SqlDeleteFk [''table'', ''name'']
          (\<lambda>fk_name. DeleteFk (quote_name e table) fk_name)
          (constraint_names e (trace s) table [column old_field] KForeignKey) s
      else s)"

text \<open>Drop all incoming FK constraint, if require we will make it again\<close>

definition drop_incoming_fks :: "env \<Rightarrow> field \<Rightarrow> state \<Rightarrow> state" where
  "drop_incoming_fks e old_field s =
     fold (\<lambda>incoming_fks s'.
             case incoming_fks of
               None \<Rightarrow> raise AttributeError s'
             | Some (fk_table, fk_column) \<Rightarrow>
                 execute_each_formatted e SqlDeleteFk [''table'', ''name'']
                   (\<lambda>fk_name. DeleteFk (quote_name e fk_table) fk_name)
                   (constraint_names e (trace s') fk_table [fk_column] KForeignKey) s')
       (model_fields old_field) s"

text \<open>
  Need to change the field type: the default is dropped first when the old field has
  one; for an auto-increment target the largest value is read, the column is made
  \<^verbatim>\<open>Integer\<close> unless the old field is an integer field, and the identity is set to
  start at the largest value plus one (\<^verbatim>\<open>max = 0\<close> when the query returns NULL).
\<close>

definition change_field_type :: "env \<Rightarrow> string \<Rightarrow> field \<Rightarrow> field \<Rightarrow> state \<Rightarrow> state" where
  "change_field_type e table old_field new_field s =
     (let s1 = (if default_f old_field \<noteq> Default PyNone \<and> has_default (default_f old_field) \<and>
                   effective_default old_field \<noteq> PyNone
                then execute e (DropDefault (quote_name e table) (quote_name e (column new_field))) s
                else s)
      in if is_AutoField new_field then
           (let mx = (case select_max e (trace s1) (quote_name e table)
                             (quote_name e (column new_field)) of
                        None \<Rightarrow> 0 | Some m \<Rightarrow> m);
                s2 = (if \<not> is_IntegerField old_field then
                        alter_column e (\<lambda>s. s) (quote_name e table)
                          (SetDataType (quote_name e (column new_field)) ''Integer'') s1
                      else s1)
            in alter_column e (\<lambda>s. s) (quote_name e table)
                 (IdentityFromInt (quote_name e (column new_field)) (mx + 1)) s2)
         else alter_column e (\<lambda>s. s) (quote_name e table)
                (SetDataType (quote_name e (column new_field)) (text_of (db_type new_field))) s1)"

text \<open>
  The block under \<^verbatim>\<open>if alter_field_name or alter_field_data_type\<close>: the incoming
  foreign keys are dropped when both fields are primary keys, the constraints of the
  column are deferred on the catalog read at that moment, the column is renamed and
  retyped, and the deferred constraints are restored.
\<close>

definition rename_and_retype :: "env \<Rightarrow> string \<Rightarrow> field \<Rightarrow> field \<Rightarrow> flags \<Rightarrow> state \<Rightarrow> state" where
  "rename_and_retype e table old_field new_field fl s =
     (if alter_field_name fl \<or> alter_field_data_type fl then
        (let s1 = (if primary_key old_field \<and> primary_key new_field
                   then drop_incoming_fks e old_field s else s);
             constraints = get_constraints e (trace s1) table;
             ds = defer_constraints_check e constraints no_deferred
                    (column old_field) (column new_field) table True True True True s1;
             s2 = (if alter_field_name fl then
                     execute_formatted e SqlRenameColumn [''table'', ''old_column'', ''new_column'']
                       (RenameColumn (quote_name e table) (quote_name e (column old_field))
                          (quote_name e (column new_field))) (snd ds)
                   else snd ds);
             s3 = (if alter_field_data_type fl
                   then change_field_type e table old_field new_field s2 else s2)
         in restore_constraints_check e (fst ds) (column old_field) (column new_field) table s3)
      else s)"

text \<open>Need to change Default\<close>

definition change_default :: "env \<Rightarrow> string \<Rightarrow> field \<Rightarrow> flags \<Rightarrow> state \<Rightarrow> state" where
  "change_default e table new_field fl s =
     (if alter_field_default fl then
        (if effective_default new_field = PyNone then
           (if alter_field_data_type fl \<or> alter_field_nullable fl then s
            else execute e (DropDefault (quote_name e table) (quote_name e (column new_field))) s)
         else alter_column e (format e SqlAlterColumnDefault [''column'', ''default''])
                (quote_name e table)
                (SetDefault (quote_name e (column new_field))
                   (prepare_default (str_float e) (effective_default new_field))) s)
      else s)"

text \<open>Need to change nullability\<close>

definition change_nullability :: "env \<Rightarrow> string \<Rightarrow> field \<Rightarrow> flags \<Rightarrow> state \<Rightarrow> state" where
  "change_nullability e table new_field fl s =
     (if alter_field_nullable fl then
        (if null_f new_field then
           alter_column e (format e SqlAlterColumnNull [''column'']) (quote_name e table)
             (DropNotNull (quote_name e (column new_field))) s
         else
           alter_column e (format e SqlAlterColumnNotNull [''column'']) (quote_name e table)
             (SetNotNull (quote_name e (column new_field))) s)
      else s)"

text \<open>Need to add check constraint\<close>

definition add_check :: "env \<Rightarrow> string \<Rightarrow> field \<Rightarrow> flags \<Rightarrow> state \<Rightarrow> state" where
  "add_check e table new_field fl s =
     (if alter_field_check_constraint fl \<and> truthy (db_check new_field) then
        with_index_name e (ByModel table) [column new_field] ''_check''
          (\<lambda>name. execute_formatted e SqlCreateCheck [''table'', ''name'', ''column'', ''check'']
             (CreateCheck (quote_name e table) name
                (quote_name e (column new_field)) (text_of (db_check new_field)))) s
      else s)"

text \<open>
  \<^verbatim>\<open>new_field.model._meta.get_all_related_objects()\<close>, which raises where the method
  does not exist.
\<close>

definition get_all_related_objects :: "field \<Rightarrow> state \<Rightarrow> state" where
  "get_all_related_objects f s =
     (case related_objects f of None \<Rightarrow> raise AttributeError s | Some rels \<Rightarrow> s)"

definition the_related_objects :: "field \<Rightarrow> related list" where
  "the_related_objects f = (case related_objects f of None \<Rightarrow> [] | Some rels \<Rightarrow> rels)"

text \<open>
  Need to add new PK (after dropping the old one, whose failure is ignored), or a
  unique constraint, or a index. Reading \<^verbatim>\<open>sql_create_pk\<close> reorganises the tables before
  the name of the constraint is computed; after the new primary key the related objects
  are read once more.
\<close>

definition add_key :: "env \<Rightarrow> string \<Rightarrow> field \<Rightarrow> flags \<Rightarrow> state \<Rightarrow> state" where
  "add_key e table new_field fl s =
     (if alter_field_primary_key fl \<and> primary_key new_field then
        get_all_related_objects new_field
          (with_index_name e (ByModel table) [column new_field] ''_pk''
             (\<lambda>name. execute e (CreatePk (quote_name e table) name (quote_name e (column new_field))))
             (reorg_tables e (try_pass (execute e (DropPk (quote_name e table))) s)))
      else if alter_field_unique fl \<and> unique new_field then
        with_index_name e (ByTable table) [column new_field] ''_uniq''
          (\<lambda>name. execute_formatted e SqlCreateUnique [''table'', ''name'', ''columns'']
             (CreateUnique (quote_name e table) name (quote_name e (column new_field)))) s
      else if alter_field_index fl \<and> db_index new_field then
        with_index_name e (ByModel table) [column new_field] ''_index''
          (\<lambda>name. execute_formatted e SqlCreateIndex [''table'', ''name'', ''columns'', ''extra'']
             (CreateIndex (quote_name e table) name (quote_name e (column new_field)) [])) s
      else s)"

text \<open>
  \<^verbatim>\<open>incoming_relations\<close>: the related objects of the new field's model, once when the
  incoming foreign keys change their type and once more when a primary key is added.
\<close>

definition incoming_relations :: "field \<Rightarrow> flags \<Rightarrow> bool \<Rightarrow> related list" where
  "incoming_relations new_field fl alter_incomming_fk_data_type =
     (if alter_incomming_fk_data_type then the_related_objects new_field else []) @
     (if alter_field_primary_key fl \<and> primary_key new_field then the_related_objects new_field
      else [])"

text \<open>Update incoming FK field, and reorg table if we changed the field type of fk field\<close>

definition update_incoming :: "env \<Rightarrow> related list \<Rightarrow> state \<Rightarrow> state" where
  "update_incoming e rels s =
     (let s1 = execute_each_formatted e SqlAlterColumn [''table'', ''changes'']
                 (\<lambda>inc_rel. AlterColumn (quote_name e (rel_table inc_rel))
                    (SetDataType (quote_name e (rel_column inc_rel)) (text_of (rel_type inc_rel))))
                 rels s
      in if length rels > 0 then reorg_tables e s1 else s1)"

text \<open>
  Rebuild/make FK constraint, if it have any. For Django before 1.9 the source reads the
  relation from \<^verbatim>\<open>new_field.rel\<close>, and the table from \<^verbatim>\<open>new_field.rel._meta\<close>.
\<close>

definition rebuild_foreign_key :: "env \<Rightarrow> string \<Rightarrow> field \<Rightarrow> state \<Rightarrow> state" where
  "rebuild_foreign_key e table new_field s =
     (if django_lt_1_9 e then
        (if \<not> field_has_rel e then raise AttributeError s
         else case remote_field new_field of
           None \<Rightarrow> s
         | Some rel \<Rightarrow>
             with_index_name e (ByModel table) [column new_field] ''_fk''
               (\<lambda>name. case meta_table rel of
                    None \<Rightarrow> raise AttributeError
                  | Some t \<Rightarrow>
                      execute e (CreateFk (quote_name e table) name
                         (quote_name e (column new_field))
                         (quote_name e t) (quote_name e (to_column rel)))) s)
      else
        (case remote_field new_field of
           None \<Rightarrow> s
         | Some r \<Rightarrow>
             with_index_name e (ByModel table) [column new_field] ''_fk''
               (\<lambda>name. execute e (CreateFk (quote_name e table) name
                  (quote_name e (column new_field))
                  (quote_name e (to_table r)) (quote_name e (to_column r)))) s))"

text \<open>Rebuild incoming FK constraints\<close>

definition rebuild_incoming_fks :: "env \<Rightarrow> string \<Rightarrow> field \<Rightarrow> bool \<Rightarrow> state \<Rightarrow> state" where
  "rebuild_incoming_fks e table new_field rebuild_incomming_fk s =
     (if rebuild_incomming_fk then
        fold (\<lambda>inc_rel.
                with_index_name e (ByModel (rel_table inc_rel)) [rel_column inc_rel] ''_fk''
                  (\<lambda>name. execute e (CreateFk (quote_name e (rel_table inc_rel)) name
                     (quote_name e (rel_column inc_rel))
                     (quote_name e table) (quote_name e (column new_field)))))
          (the_related_objects new_field) (get_all_related_objects new_field s)
      else s)"

text \<open>
  The two flags on the incoming foreign keys. \<open>remade\<close> tells whether the call went
  through the temporary column, with \<open>old0\<close> and \<open>new0\<close> the fields of the call; \<open>old_field\<close>
  and \<open>new_field\<close> are the fields after that step. The flags are set where the source
  sets them: at the remake, and in the rename and retype block.
\<close>

definition rebuild_incomming_fk_flag :: "bool \<Rightarrow> field \<Rightarrow> field \<Rightarrow> field \<Rightarrow> field \<Rightarrow> flags \<Rightarrow> bool" where
  "rebuild_incomming_fk_flag remade old0 new0 old_field new_field fl =
     ((remade \<and> primary_key old0 \<and> primary_key new0) \<or>
      ((alter_field_name fl \<or> alter_field_data_type fl) \<and>
       primary_key old_field \<and> primary_key new_field))"

definition alter_incomming_fk_data_type_flag ::
  "bool \<Rightarrow> field \<Rightarrow> field \<Rightarrow> field \<Rightarrow> field \<Rightarrow> flags \<Rightarrow> bool" where
  "alter_incomming_fk_data_type_flag remade old0 new0 old_field new_field fl =
     ((remade \<and> primary_key old0 \<and> primary_key new0 \<and>
       \<not> (is_AutoField old0 \<and> is_IntegerField new0)) \<or>
      ((alter_field_name fl \<or> alter_field_data_type fl) \<and> alter_field_data_type fl \<and>
       primary_key old_field \<and> primary_key new_field \<and>
       \<not> (is_AutoField new_field \<and> is_IntegerField old_field)))"

text \<open>
  The plan of \<^verbatim>\<open>alter_field\<close> from the computation of the flags on, for the fields
  \<open>old_field\<close> and \<open>new_field\<close> that the remake step leaves.
\<close>

definition alter_plan ::
  "env \<Rightarrow> string \<Rightarrow> bool \<Rightarrow> field \<Rightarrow> field \<Rightarrow> field \<Rightarrow> field \<Rightarrow> bool \<Rightarrow> state \<Rightarrow> state" where
  "alter_plan e table remade old0 new0 old_field new_field strict s =
     (let fl = diff_flags old_field new_field;
          rebuild_incomming_fk = rebuild_incomming_fk_flag remade old0 new0 old_field new_field fl;
          alter_incomming_fk_data_type =
            alter_incomming_fk_data_type_flag remade old0 new0 old_field new_field fl;
          s1 = drop_steps e table old_field fl strict s;
          s2 = drop_foreign_keys e table old_field s1;
          s3 = rename_and_retype e table old_field new_field fl s2;
          s4 = change_default e table new_field fl s3;
          s5 = change_nullability e table new_field fl s4;
          s6 = add_check e table new_field fl s5;
          s6a = (if alter_incomming_fk_data_type then get_all_related_objects new_field s6
                 else s6);
          s7 = add_key e table new_field fl s6a;
          s8 = update_incoming e (incoming_relations new_field fl alter_incomming_fk_data_type) s7;
          s9 = rebuild_foreign_key e table new_field s8
      in rebuild_incoming_fks e table new_field rebuild_incomming_fk s9)"

text \<open>
  \<^verbatim>\<open>alter_field\<close>. The message of the first error prints the two parameter
  dictionaries; the model keeps their types.
\<close>

definition alter_field :: "env \<Rightarrow> string \<Rightarrow> field \<Rightarrow> field \<Rightarrow> bool \<Rightarrow> state \<Rightarrow> state" where
  "alter_field e table old_field new_field strict s =
     (case err s of
        Some x \<Rightarrow> s
      | None \<Rightarrow>
          (case rel_condition old_field new_field of
             None \<Rightarrow> raise AttributeError s
           | Some rc \<Rightarrow>
               if db_type old_field = None \<and> db_type new_field = None \<and> rc then
                 alter_many_to_many e table old_field new_field strict s
               else if db_type old_field = None \<or> db_type new_field = None then
                 raise (ValueError (''Cannot alter field '' @ text_of (db_type old_field) @
                                    '' into '' @ text_of (db_type new_field))) s
               else if remake_needed old_field new_field then
                 (let remade = alterFieldDataTypeByRemaking e table old_field new_field strict s
                  in alter_plan e table True old_field new_field
                       (fst (fst remade)) (snd (fst remade)) strict (snd remade))
               else alter_plan e table False old_field new_field old_field new_field strict s))"

section \<open>Reading a run\<close>

fun stmt_of :: "event \<Rightarrow> stmt" where
  "stmt_of (Done st) = st"
| "stmt_of (Failed st) = st"

text \<open>
  A step of the editor does nothing while an exception is in flight, and otherwise
  only adds events to the trace, all of statements of the kind \<open>P\<close>.
\<close>

definition step :: "(stmt \<Rightarrow> bool) \<Rightarrow> (state \<Rightarrow> state) \<Rightarrow> bool" where
  "step P F = (\<forall>s. (err s \<noteq> None \<longrightarrow> F s = s) \<and>
                   (\<exists>evs. trace (F s) = trace s @ evs \<and> list_all (\<lambda>ev. P (stmt_of ev)) evs))"

text \<open>The statements that only the remake path issues.\<close>

fun is_remake_stmt :: "stmt \<Rightarrow> bool" where
  "is_remake_stmt (CreateColumn t f) = True"
| "is_remake_stmt (UpdateCopy t a b) = True"
| "is_remake_stmt (RemoveField t f) = True"
| "is_remake_stmt st = False"

definition plain :: "stmt \<Rightarrow> bool" where
  "plain st = (\<not> is_remake_stmt st)"

text \<open>The events that a step adds to the trace.\<close>

definition new_events :: "state \<Rightarrow> state \<Rightarrow> event list" where
  "new_events s s' = drop (length (trace s)) (trace s')"

fun restore_stmt :: "stmt \<Rightarrow> bool" where
  "restore_stmt (CreatePk t n c) = True"
| "restore_stmt (CreateUnique t n c) = True"
| "restore_stmt (CreateIndex t n c x) = True"
| "restore_stmt st = False"

definition restore_attempt :: "event \<Rightarrow> stmt option" where
  "restore_attempt ev = (if restore_stmt (stmt_of ev) then Some (stmt_of ev) else None)"

definition restore_attempts :: "event list \<Rightarrow> stmt list" where
  "restore_attempts evs = List.map_filter restore_attempt evs"

text \<open>
  What the restoration has to attempt for a deferred set: one statement for each entry
  of the primary keys, of the unique constraints and of the indexes, in that order, on
  the rewritten column list.
\<close>

definition restore_plan :: "deferred \<Rightarrow> string \<Rightarrow> string \<Rightarrow> string \<Rightarrow> stmt list" where
  "restore_plan d old_column new_column table =
     map (\<lambda>(n, cols). CreatePk table n (restored_columns old_column new_column cols)) (d_pk d) @
     map (\<lambda>(n, cols). CreateUnique table n (restored_columns old_column new_column cols)) (d_unique d) @
     map (\<lambda>(n, cols). CreateIndex table n (restored_columns old_column new_column cols) []) (d_index d)"

section \<open>An engine and a state for the examples\<close>

text \<open>The placeholders of the inherited templates in Django 1.11.\<close>

fun placeholders_1_11 :: "template \<Rightarrow> string list" where
  "placeholders_1_11 SqlAlterColumn = [''table'', ''changes'']"
| "placeholders_1_11 SqlAlterColumnNull = [''column'']"
| "placeholders_1_11 SqlAlterColumnNotNull = [''column'']"
| "placeholders_1_11 SqlAlterColumnDefault = [''column'', ''default'']"
| "placeholders_1_11 SqlRenameColumn = [''table'', ''old_column'', ''new_column'']"
| "placeholders_1_11 SqlDeleteColumn = [''table'', ''column'']"
| "placeholders_1_11 SqlCreateCheck = [''table'', ''name'', ''check'']"
| "placeholders_1_11 SqlDeleteCheck = [''table'', ''name'']"
| "placeholders_1_11 SqlCreateUnique = [''table'', ''name'', ''columns'']"
| "placeholders_1_11 SqlCreateIndex = [''name'', ''table'', ''columns'', ''extra'']"
| "placeholders_1_11 SqlDeleteIndex = [''name'']"
| "placeholders_1_11 SqlDeleteFk = [''table'', ''name'']"

text \<open>
  From Django 2.2 on \<^verbatim>\<open>sql_create_index\<close> is
  \<^verbatim>\<open>CREATE INDEX %(name)s ON %(table)s (%(columns)s)%(extra)s%(condition)s\<close>.
\<close>

definition placeholders_2_2 :: "template \<Rightarrow> string list" where
  "placeholders_2_2 =
     placeholders_1_11(SqlCreateIndex := [''name'', ''table'', ''columns'', ''extra'', ''condition''])"

text \<open>
  An engine that accepts every statement, with an empty catalog, no pending
  reorganisation, names quoted as they are and the templates of Django 1.11; and the
  state before the first statement.
\<close>

definition accept_all :: env where
  "accept_all =
     \<lparr>quote_name = (\<lambda>n. n),
      truncate_name = (\<lambda>n k. take k n),
      max_name_length = 128,
      create_index_name =
        (\<lambda>m cols sfx. case m of
             ByModel t \<Rightarrow> Some (t @ ''_'' @ py_join ''_'' cols @ sfx)
           | ByTable t \<Rightarrow> None),
      placeholders = placeholders_1_11,
      str_float = (\<lambda>us. ''''),
      django_lt_1_9 = False,
      field_has_rel = True,
      rejects = (\<lambda>tr st. False),
      constraint_names = (\<lambda>tr t cols k. []),
      get_constraints = (\<lambda>tr t. []),
      select_max = (\<lambda>tr t c. None),
      reorg_pending = (\<lambda>tr. []),
      primary_keys = (\<lambda>tr t. [])\<rparr>"

definition start :: state where
  "start = \<lparr>trace = [], err = None\<rparr>"

text \<open>The names under which a dictionary has entries.\<close>

definition keys :: "('k \<times> 'v) list \<Rightarrow> 'k set" where
  "keys d = fst ` set d"



definition a_constraint :: "string list \<Rightarrow> bool \<Rightarrow> bool \<Rightarrow> bool \<Rightarrow> bool \<Rightarrow> constr" where
  "a_constraint cols pk uq ix ck =
     \<lparr>columns = cols, c_primary_key = pk, c_unique = uq, c_index = ix, c_check = ck,
      c_foreign_key = None\<rparr>"

text \<open>
  The entries of a deferred set come from the names \<open>seen\<close>; a name recorded as primary
  key is recorded under no other kind, a name recorded as unique neither as index nor as
  check; and none of the three dictionaries that are restored has a name twice.
\<close>

definition defer_inv :: "string set \<Rightarrow> deferred \<Rightarrow> bool" where
  "defer_inv seen d =
     (keys (d_pk d) \<union> keys (d_unique d) \<union> keys (d_index d) \<union> keys (d_check d) \<subseteq> seen \<and>
      keys (d_pk d) \<inter> (keys (d_unique d) \<union> keys (d_index d) \<union> keys (d_check d)) = {} \<and>
      keys (d_unique d) \<inter> (keys (d_index d) \<union> keys (d_check d)) = {} \<and>
      distinct (map fst (d_pk d)) \<and> distinct (map fst (d_unique d)) \<and>
      distinct (map fst (d_index d)))"


text \<open>
  The constraint that a statement of the restoration recreates; and the property that
  nothing recorded as unique, index or check is an entry of the catalog that the loop
  handles as a primary key.
\<close>

fun restore_name :: "stmt \<Rightarrow> string" where
  "restore_name (CreatePk t n c) = n"
| "restore_name (CreateUnique t n c) = n"
| "restore_name (CreateIndex t n c x) = n"
| "restore_name st = []"

definition not_pk_entries :: "(string \<times> constr) list \<Rightarrow> bool \<Rightarrow> string \<Rightarrow> deferred \<Rightarrow> bool" where
  "not_pk_entries catalog dp oc d =
     (\<forall>n \<in> keys (d_unique d) \<union> keys (d_index d) \<union> keys (d_check d).
        \<forall>c. (n, c) \<in> set catalog \<longrightarrow> \<not> (dp \<and> c_primary_key c \<and> oc \<in> set (columns c)))"

text \<open>
  A nullable field with a column and a storage type and nothing else, on a model without
  \<^verbatim>\<open>get_all_related_objects\<close>.
\<close>

definition a_field :: "string \<Rightarrow> string \<Rightarrow> field" where
  "a_field col ty =
     \<lparr>column = col, db_type = Some ty, db_check = None,
      is_AutoField = False, is_IntegerField = False, is_TextField = False,
      is_ManyToManyField = False, null_f = True, primary_key = False, u_unique = False,
      db_index = False, default_f = NotProvided, effective_default = PyNone,
      remote_field = None, model_fields = [], related_objects = None\<rparr>"

text \<open>
  A table \<^verbatim>\<open>t\<close> whose column \<^verbatim>\<open>qty\<close> carries the check constraint \<^verbatim>\<open>qty_check\<close>, until
  the constraint is dropped; and the column as an \<^verbatim>\<open>INTEGER\<close> and as a \<^verbatim>\<open>SMALLINT\<close>, both
  with the same check.
\<close>

definition qty_catalog :: env where
  "qty_catalog =
     accept_all\<lparr>get_constraints :=
       (\<lambda>tr t. if Done (DeleteCheck ''t'' ''qty_check'') \<in> set tr then []
               else [(''qty_check'', a_constraint [''qty''] False False False True)])\<rparr>"

definition qty_integer :: field where
  "qty_integer = (a_field ''qty'' ''INTEGER'')\<lparr>db_check := Some ''qty >= 0'', is_IntegerField := True\<rparr>"

definition qty_smallint :: field where
  "qty_smallint = (a_field ''qty'' ''SMALLINT'')\<lparr>db_check := Some ''qty >= 0'', is_IntegerField := True\<rparr>"

section \<open>Properties of the string operations\<close>

lemma replace_all_Nil [simp]: "replace_all old new [] = []"
  by (simp add: replace_all.simps)

lemma replace_all_char_Cons:
  "replace_all [q] new (c # s) = (if c = q then new else [c]) @ replace_all [q] new s"
  by (subst replace_all.simps) simp

lemma replace_all_char: "replace_all [q] new s = concat (map (\<lambda>c. if c = q then new else [c]) s)"
  by (induction s) (simp_all add: replace_all_char_Cons)

lemma escape_quotes_double: "escape_quotes s = double_quotes s"
  by (simp add: escape_quotes_def double_quotes_def py_replace_def replace_all_char)

lemma quotes_paired_other: "c \<noteq> quote_char \<Longrightarrow> quotes_paired (c # s) = quotes_paired s"
  by (cases s) simp_all

lemma quotes_paired_double: "quotes_paired (double_quotes s)"
  by (induction s) (simp_all add: double_quotes_def quotes_paired_other)

section \<open>Steps\<close>

lemma stepI:
  assumes "\<And>s. err s \<noteq> None \<Longrightarrow> F s = s"
    and "\<And>s. err s = None \<Longrightarrow> \<exists>evs. trace (F s) = trace s @ evs \<and> list_all (\<lambda>ev. P (stmt_of ev)) evs"
  shows "step P F"
  unfolding step_def
proof (intro allI conjI impI)
  fix s :: state
  show "\<exists>evs. trace (F s) = trace s @ evs \<and> list_all (\<lambda>ev. P (stmt_of ev)) evs"
  proof (cases "err s")
    case None then show ?thesis by (rule assms(2))
  next
    case (Some x)
    then have "F s = s" by (simp add: assms(1))
    then show ?thesis by simp
  qed
qed (simp add: assms(1))

lemma step_sticky: "step P F \<Longrightarrow> err s \<noteq> None \<Longrightarrow> F s = s"
  by (simp add: step_def)

lemma step_trace: "step P F \<Longrightarrow> \<exists>evs. trace (F s) = trace s @ evs \<and> list_all (\<lambda>ev. P (stmt_of ev)) evs"
  by (simp add: step_def)

lemma step_err: "step P F \<Longrightarrow> err (F s) = None \<Longrightarrow> err s = None"
  by (metis step_sticky)

lemma step_mono: "step P F \<Longrightarrow> (\<And>st. P st \<Longrightarrow> Q st) \<Longrightarrow> step Q F"
  unfolding step_def by (metis (mono_tags, lifting) list.pred_mono_strong)

lemma step_id: "step P (\<lambda>s. s)"
  by (simp add: step_def)

lemma step_execute: "P st \<Longrightarrow> step P (execute e st)"
  by (rule stepI) (auto simp: execute_def)

lemma step_raise: "step P (raise x)"
  by (rule stepI) (auto simp: raise_def)

lemma step_format: "step P (format e t ks)"
  by (rule stepI) (auto simp: format_def raise_def split: option.splits)

lemma step_get_all_related_objects: "step P (get_all_related_objects f)"
  by (rule stepI) (auto simp: get_all_related_objects_def raise_def split: option.splits)

lemma step_comp: "step P F \<Longrightarrow> step P G \<Longrightarrow> step P (\<lambda>s. G (F s))"
  unfolding step_def
  apply (intro allI conjI impI)
   apply simp
  apply (metis append.assoc list_all_append)
  done

lemma step_dep: "(\<And>x. step P (F x)) \<Longrightarrow> step P (\<lambda>s. F (g s) s)"
  unfolding step_def by blast

lemma step_if: "step P F \<Longrightarrow> step P G \<Longrightarrow> step P (\<lambda>s. if c s then F s else G s)"
  unfolding step_def by simp

lemma step_fold: "(\<And>x. x \<in> set xs \<Longrightarrow> step P (F x)) \<Longrightarrow> step P (fold F xs)"
proof (induction xs)
  case Nil
  then show ?case by (simp add: step_def)
next
  case (Cons x xs)
  have "step P (\<lambda>s. fold F xs (F x s))"
    by (rule step_comp) (simp_all add: Cons)
  then show ?case by (simp add: comp_def)
qed

lemma step_execute_each: "(\<And>x. P (f x)) \<Longrightarrow> step P (execute_each e f xs)"
  unfolding execute_each_def by (rule step_fold) (simp add: step_execute)

lemma step_execute_formatted: "P st \<Longrightarrow> step P (execute_formatted e t ks st)"
  unfolding execute_formatted_def [abs_def]
  by (rule step_comp [OF step_format]) (rule step_execute)

lemma step_execute_each_formatted:
  "(\<And>x. P (f x)) \<Longrightarrow> step P (execute_each_formatted e t ks f xs)"
  unfolding execute_each_formatted_def by (rule step_fold) (simp add: step_execute_formatted)

lemma step_alter_column:
  "step P inner \<Longrightarrow> P (AlterColumn table ch) \<Longrightarrow> step P (alter_column e inner table ch)"
  unfolding alter_column_def [abs_def]
  by (rule step_comp) (simp_all add: step_execute_formatted)

lemma step_with_index_name:
  "(\<And>name. step P (F name)) \<Longrightarrow> step P (with_index_name e m cols sfx F)"
  unfolding with_index_name_def [abs_def]
  by (cases "create_index_name e m cols sfx") (simp_all add: step_raise)

lemma step_reorg_tables: "(\<And>a b. P (Reorg a b)) \<Longrightarrow> step P (reorg_tables e)"
  unfolding reorg_tables_def
  by (rule step_dep [where F = "\<lambda>x. execute_each e (\<lambda>(sName, tName). Reorg sName tName) x"])
     (rule step_execute_each, simp split: prod.split)

lemma step_try_pass: "step P F \<Longrightarrow> step P (try_pass F)"
  by (rule stepI) (auto simp: try_pass_def dest: step_trace)

lemma plain_simps [simp]:
  "plain (DeleteColumn a b)" "plain (AlterColumn a c)" "plain (RenameColumn a b d)"
  "plain (DropDefault a b)" "plain (DropPk a)" "plain (DeletePk a b)" "plain (DeleteUnique a b)"
  "plain (DeleteIndex a)" "plain (DeleteCheck a b)" "plain (DeleteFk a b)" "plain (CreatePk a b d)"
  "plain (CreateUnique a b d)" "plain (CreateIndex a b d g)" "plain (CreateCheck a b d g)"
  "plain (CreateFk a b d g h)" "plain (Reorg a b)" "plain (AlterManyToManyBase a b)"
  "\<not> plain (CreateColumn a f)" "\<not> plain (UpdateCopy a b d)" "\<not> plain (RemoveField a f)"
  by (simp_all add: plain_def)

lemma step_if_const: "step P F \<Longrightarrow> step P G \<Longrightarrow> step P (\<lambda>s. if C then F s else G s)"
  by (simp add: step_def)

lemma step_query_each: "(\<And>x. P (f x)) \<Longrightarrow> step P (\<lambda>s. execute_each e f (q s) s)"
  by (rule step_dep [where F = "\<lambda>xs. execute_each e f xs"]) (simp add: step_execute_each)

lemma step_query_each_formatted:
  "(\<And>x. P (f x)) \<Longrightarrow> step P (\<lambda>s. execute_each_formatted e t ks f (q s) s)"
  by (rule step_dep [where F = "\<lambda>xs. execute_each_formatted e t ks f xs"])
     (simp add: step_execute_each_formatted)

lemma step_sql_create_pk:
  assumes "P (CreatePk t n c)" "\<And>a b. P (Reorg a b)"
  shows "step P (sql_create_pk e t n c)"
  unfolding sql_create_pk_def [abs_def]
  by (rule step_comp) (simp_all add: step_reorg_tables step_execute assms)

lemma step_drop_primary_key: "step plain (drop_primary_key e table old fl strict)"
  unfolding drop_primary_key_def [abs_def]
  by (intro step_if_const step_if step_raise step_execute step_id) simp

lemma step_drop_unique: "step plain (drop_unique e table old fl strict)"
  unfolding drop_unique_def [abs_def] Let_def
  by (intro step_if_const step_if step_raise step_query_each step_id) simp

lemma step_drop_index: "step plain (drop_index e table old fl strict)"
  unfolding drop_index_def [abs_def] Let_def
  by (intro step_if_const step_if step_raise step_query_each_formatted step_id) simp

lemma step_drop_check: "step plain (drop_check e table old fl strict)"
  unfolding drop_check_def [abs_def] Let_def
  by (intro step_if_const step_if step_raise step_query_each_formatted step_id) simp

lemma step_drop_nullability: "step plain (drop_nullability e table old fl)"
  unfolding drop_nullability_def [abs_def]
  by (intro step_if_const step_alter_column step_format step_id) simp

lemma step_drop_steps: "step plain (drop_steps e table old fl strict)"
proof -
  note a = step_comp [OF step_drop_primary_key step_drop_unique]
  note b = step_comp [OF a step_drop_index]
  note c = step_comp [OF b step_drop_check]
  note d = step_comp [OF c step_drop_nullability]
  show ?thesis
    unfolding drop_steps_def [abs_def] by (rule d)
qed

lemma step_drop_foreign_keys: "step plain (drop_foreign_keys e table old)"
  unfolding drop_foreign_keys_def [abs_def]
  by (intro step_if_const step_query_each_formatted step_id) simp

lemma step_drop_incoming_fks: "step plain (drop_incoming_fks e old)"
  unfolding drop_incoming_fks_def [abs_def]
proof (rule step_fold)
  fix x :: "(string \<times> string) option"
  show "step plain (\<lambda>s'. case x of
               None \<Rightarrow> raise AttributeError s'
             | Some (fk_table, fk_column) \<Rightarrow>
                 execute_each_formatted e SqlDeleteFk [''table'', ''name'']
                   (\<lambda>fk_name. DeleteFk (quote_name e fk_table) fk_name)
                   (constraint_names e (trace s') fk_table [fk_column] KForeignKey) s')"
  proof (cases x)
    case None
    then show ?thesis by (simp add: step_raise)
  next
    case (Some p)
    obtain a b where p: "p = (a, b)" by (cases p)
    have "step plain (\<lambda>s'. execute_each_formatted e SqlDeleteFk [''table'', ''name'']
                   (\<lambda>fk_name. DeleteFk (quote_name e a) fk_name)
                   (constraint_names e (trace s') a [b] KForeignKey) s')"
      by (rule step_query_each_formatted) simp
    then show ?thesis by (simp add: Some p)
  qed
qed

lemma step_change_field_type: "step plain (change_field_type e table old new)"
proof -
  let ?s1 = "\<lambda>s. if default_f old \<noteq> Default PyNone \<and> has_default (default_f old) \<and>
                   effective_default old \<noteq> PyNone
                then execute e (DropDefault (quote_name e table) (quote_name e (column new))) s
                else s"
  let ?w = "\<lambda>s. if \<not> is_IntegerField old then
                        alter_column e (\<lambda>s. s) (quote_name e table)
                          (SetDataType (quote_name e (column new)) ''Integer'') s
                      else s"
  let ?rest = "\<lambda>s1. if is_AutoField new then
           (let mx = (case select_max e (trace s1) (quote_name e table)
                             (quote_name e (column new)) of
                        None \<Rightarrow> 0 | Some m \<Rightarrow> m);
                s2 = ?w s1
            in alter_column e (\<lambda>s. s) (quote_name e table)
                 (IdentityFromInt (quote_name e (column new)) (mx + 1)) s2)
         else alter_column e (\<lambda>s. s) (quote_name e table)
                (SetDataType (quote_name e (column new)) (text_of (db_type new))) s1"
  have a: "step plain (alter_column e (\<lambda>s. s) t ch)" for t ch
    by (rule step_alter_column) (simp_all add: step_id)
  have 1: "step plain ?s1"
    by (intro step_if_const step_execute step_id) simp
  have w: "step plain ?w"
    by (intro step_if_const a step_id)
  have 2: "step plain ?rest"
    unfolding Let_def
    apply (rule step_if_const)
     apply (rule step_dep [where F = "\<lambda>m s. alter_column e (\<lambda>s. s) (quote_name e table)
                   (IdentityFromInt (quote_name e (column new)) (m + 1)) (?w s)"])
     apply (rule step_comp [OF w a])
    apply (rule a)
    done
  have "step plain (\<lambda>s. ?rest (?s1 s))"
    by (rule step_comp [OF 1 2])
  then show ?thesis
    by (simp add: change_field_type_def [abs_def] Let_def)
qed

lemma step_change_default: "step plain (change_default e table new fl)"
  unfolding change_default_def [abs_def]
  by (intro step_if_const step_execute step_alter_column step_format step_id) simp_all

lemma step_change_nullability: "step plain (change_nullability e table new fl)"
  unfolding change_nullability_def [abs_def]
  by (intro step_if_const step_alter_column step_format step_id) simp_all

lemma step_add_check: "step plain (add_check e table new fl)"
  unfolding add_check_def [abs_def]
  by (intro step_if_const step_with_index_name step_execute_formatted step_id) simp

lemma step_add_key: "step plain (add_key e table new fl)"
proof -
  have d: "step plain (try_pass (execute e (DropPk (quote_name e table))))"
    by (intro step_try_pass step_execute) simp
  have r: "step plain (reorg_tables e)"
    by (rule step_reorg_tables) simp
  have c: "step plain (with_index_name e (ByModel table) [column new] ''_pk''
             (\<lambda>name. execute e (CreatePk (quote_name e table) name (quote_name e (column new)))))"
    by (intro step_with_index_name step_execute) simp
  note dr = step_comp [OF d r]
  note drc = step_comp [OF dr c]
  note pk = step_comp [OF drc step_get_all_related_objects [where f = new]]
  have u: "step plain (with_index_name e (ByTable table) [column new] ''_uniq''
          (\<lambda>name. execute_formatted e SqlCreateUnique [''table'', ''name'', ''columns'']
             (CreateUnique (quote_name e table) name (quote_name e (column new)))))"
    by (intro step_with_index_name step_execute_formatted) simp
  have i: "step plain (with_index_name e (ByModel table) [column new] ''_index''
          (\<lambda>name. execute_formatted e SqlCreateIndex [''table'', ''name'', ''columns'', ''extra'']
             (CreateIndex (quote_name e table) name (quote_name e (column new)) [])))"
    by (intro step_with_index_name step_execute_formatted) simp
  show ?thesis
    unfolding add_key_def [abs_def]
    by (intro step_if_const pk u i step_id)
qed

lemma step_update_incoming: "step plain (update_incoming e rels)"
proof -
  have a: "step plain (execute_each_formatted e SqlAlterColumn [''table'', ''changes'']
                 (\<lambda>inc_rel. AlterColumn (quote_name e (rel_table inc_rel))
                    (SetDataType (quote_name e (rel_column inc_rel)) (text_of (rel_type inc_rel))))
                 rels)"
    by (rule step_execute_each_formatted) simp
  have r: "step plain (reorg_tables e)"
    by (rule step_reorg_tables) simp
  show ?thesis
    unfolding update_incoming_def [abs_def] Let_def
    by (intro step_if_const a step_comp [OF a r])
qed

lemma step_rebuild_foreign_key: "step plain (rebuild_foreign_key e table new)"
proof -
  have a: "step plain (with_index_name e (ByModel table) [column new] ''_fk''
               (\<lambda>name. case meta_table rel of
                    None \<Rightarrow> raise AttributeError
                  | Some t \<Rightarrow>
                      execute e (CreateFk (quote_name e table) name
                         (quote_name e (column new))
                         (quote_name e t) (quote_name e (to_column rel)))))" for rel
    by (rule step_with_index_name) (cases "meta_table rel"; simp add: step_raise step_execute)
  have b: "step plain (with_index_name e (ByModel table) [column new] ''_fk''
               (\<lambda>name. execute e (CreateFk (quote_name e table) name
                  (quote_name e (column new))
                  (quote_name e (to_table r)) (quote_name e (to_column r)))))" for r
    by (intro step_with_index_name step_execute) simp
  show ?thesis
    unfolding rebuild_foreign_key_def [abs_def]
    by (cases "remote_field new") (simp_all add: step_id step_raise a b step_if_const)
qed

lemma step_rebuild_incoming_fks: "step plain (rebuild_incoming_fks e table new b)"
proof -
  have f: "step plain (fold (\<lambda>inc_rel.
                with_index_name e (ByModel (rel_table inc_rel)) [rel_column inc_rel] ''_fk''
                  (\<lambda>name. execute e (CreateFk (quote_name e (rel_table inc_rel)) name
                     (quote_name e (rel_column inc_rel))
                     (quote_name e table) (quote_name e (column new)))))
          (the_related_objects new))"
    by (intro step_fold step_with_index_name step_execute) simp
  note g = step_comp [OF step_get_all_related_objects [where f = new] f]
  show ?thesis
    unfolding rebuild_incoming_fks_def [abs_def]
    by (intro step_if_const g step_id)
qed

section \<open>Replacing a column name\<close>

lemma replace_all_prefix:
  "old \<noteq> [] \<Longrightarrow> replace_all old new (old @ rest) = new @ replace_all old new rest"
  by (subst replace_all.simps) simp

lemma replace_all_no_prefix:
  "old \<noteq> [] \<Longrightarrow> \<not> prefix old (c # s) \<Longrightarrow> replace_all old new (c # s) = c # replace_all old new s"
  by (subst replace_all.simps) simp

lemma length_replace_all_ge:
  "length old \<le> length new \<Longrightarrow> length s \<le> length (replace_all old new s)"
proof (induction old new s rule: replace_all.induct)
  case (1 old new s)
  show ?case
  proof (cases "old = [] \<or> s = []")
    case True
    then show ?thesis by (subst replace_all.simps) simp
  next
    case False
    show ?thesis
    proof (cases "prefix old s")
      case True
      then obtain rest where s: "s = old @ rest" by (auto simp: prefix_def)
      have "length rest \<le> length (replace_all old new rest)"
        using 1(1) False True 1(3) s by simp
      then show ?thesis using False 1(3) s by (simp add: replace_all_prefix)
    next
      case np: False
      obtain c t where s: "s = c # t" using False by (cases s) auto
      have "length t \<le> length (replace_all old new t)"
        using 1(2) False np 1(3) s by simp
      then show ?thesis using False np s by (simp add: replace_all_no_prefix)
    qed
  qed
qed

lemma length_replace_all_le:
  "length new \<le> length old \<Longrightarrow> length (replace_all old new s) \<le> length s"
proof (induction old new s rule: replace_all.induct)
  case (1 old new s)
  show ?case
  proof (cases "old = [] \<or> s = []")
    case True
    then show ?thesis by (subst replace_all.simps) simp
  next
    case False
    show ?thesis
    proof (cases "prefix old s")
      case True
      then obtain rest where s: "s = old @ rest" by (auto simp: prefix_def)
      have "length (replace_all old new rest) \<le> length rest"
        using 1(1) False True 1(3) s by simp
      then show ?thesis using False 1(3) s by (simp add: replace_all_prefix)
    next
      case np: False
      obtain c t where s: "s = c # t" using False by (cases s) auto
      have "length (replace_all old new t) \<le> length t"
        using 1(2) False np 1(3) s by simp
      then show ?thesis using False np s by (simp add: replace_all_no_prefix)
    qed
  qed
qed

lemma replace_all_changes:
  "old \<noteq> [] \<Longrightarrow> old \<noteq> new \<Longrightarrow> replace_all old new (u @ old @ v) \<noteq> u @ old @ v"
proof (induction u)
  case Nil
  show ?case
  proof
    assume eq: "replace_all old new ([] @ old @ v) = [] @ old @ v"
    then have e: "new @ replace_all old new v = old @ v"
      using Nil by (simp add: replace_all_prefix)
    consider "length new = length old" | "length old < length new" | "length new < length old"
      by linarith
    then show False
    proof cases
      case 1
      then have "new = old" using e by (metis append_eq_append_conv)
      then show False using Nil by simp
    next
      case 2
      then have "length v \<le> length (replace_all old new v)"
        by (simp add: length_replace_all_ge)
      moreover have "length new + length (replace_all old new v) = length old + length v"
        using e by (metis length_append)
      ultimately show False using 2 by simp
    next
      case 3
      then have "length (replace_all old new v) \<le> length v"
        by (simp add: length_replace_all_le)
      moreover have "length new + length (replace_all old new v) = length old + length v"
        using e by (metis length_append)
      ultimately show False using 3 by simp
    qed
  qed
next
  case (Cons c u)
  show ?case
  proof (cases "prefix old ((c # u) @ old @ v)")
    case True
    then obtain rest where r: "(c # u) @ old @ v = old @ rest" by (auto simp: prefix_def)
    show ?thesis
    proof
      assume "replace_all old new ((c # u) @ old @ v) = (c # u) @ old @ v"
      then have e: "new @ replace_all old new rest = old @ rest"
        using Cons(2) r by (simp add: replace_all_prefix)
      consider "length new = length old" | "length old < length new" | "length new < length old"
        by linarith
      then show False
      proof cases
        case 1
        then have "new = old" using e by (metis append_eq_append_conv)
        then show False using Cons by simp
      next
        case 2
        then have "length rest \<le> length (replace_all old new rest)"
          by (simp add: length_replace_all_ge)
        moreover have "length new + length (replace_all old new rest) = length old + length rest"
          using e by (metis length_append)
        ultimately show False using 2 by simp
      next
        case 3
        then have "length (replace_all old new rest) \<le> length rest"
          by (simp add: length_replace_all_le)
        moreover have "length new + length (replace_all old new rest) = length old + length rest"
          using e by (metis length_append)
        ultimately show False using 3 by simp
      qed
    qed
  next
    case False
    then have "replace_all old new ((c # u) @ old @ v) = c # replace_all old new (u @ old @ v)"
      using Cons(2) by (simp add: replace_all_no_prefix)
    then show ?thesis using Cons by simp
  qed
qed

lemma py_replace_changes:
  "old \<noteq> [] \<Longrightarrow> old \<noteq> new \<Longrightarrow> py_replace (u @ old @ v) old new \<noteq> u @ old @ v"
  by (simp add: py_replace_def replace_all_changes)

section \<open>The attempts of the restoration\<close>

lemma restore_attempts_simps [simp]:
  "restore_attempts [] = []"
  "restore_attempts (xs @ ys) = restore_attempts xs @ restore_attempts ys"
  "restore_attempts (ev # xs) = (case restore_attempt ev of None \<Rightarrow> restore_attempts xs | Some n \<Rightarrow> n # restore_attempts xs)"
  by (simp_all add: restore_attempts_def map_filter_def split: option.split)

lemma new_events_self [simp]: "new_events s s = []"
  by (simp add: new_events_def)

lemma new_events_append: "trace s' = trace s @ evs \<Longrightarrow> new_events s s' = evs"
  by (simp add: new_events_def)

lemma step_new_events: "step P F \<Longrightarrow> trace (F s) = trace s @ new_events s (F s)"
  by (metis new_events_append step_trace)

lemma new_events_trans:
  "step P F \<Longrightarrow> step P G \<Longrightarrow> new_events s (G (F s)) = new_events s (F s) @ new_events (F s) (G (F s))"
  by (metis append.assoc new_events_append step_new_events)

lemma execute_done:
  "err s = None \<Longrightarrow> \<not> rejects e (trace s) st \<Longrightarrow> execute e st s = s\<lparr>trace := trace s @ [Done st]\<rparr>"
  by (simp add: execute_def)

lemma execute_failed:
  "err s = None \<Longrightarrow> rejects e (trace s) st \<Longrightarrow>
   execute e st s = s\<lparr>trace := trace s @ [Failed st], err := Some (DatabaseError st)\<rparr>"
  by (simp add: execute_def)

lemma execute_events:
  "err s = None \<Longrightarrow> new_events s (execute e st s) = [if rejects e (trace s) st then Failed st else Done st]"
  by (simp add: execute_def new_events_def)

lemma execute_err:
  "err s = None \<Longrightarrow> (err (execute e st s) = None) = (\<not> rejects e (trace s) st)"
  by (simp add: execute_def)

lemma no_attempt_list:
  "list_all (\<lambda>ev. restore_attempt ev = None) evs \<Longrightarrow> restore_attempts evs = []"
  by (induction evs) simp_all

lemma reorg_events_no_attempt:
  "restore_attempts (new_events s (reorg_tables e s)) = []"
proof -
  have "step (\<lambda>st. \<exists>a b. st = Reorg a b) (reorg_tables e)"
    by (rule step_reorg_tables) simp
  from step_trace [OF this, of s] obtain evs where t: "trace (reorg_tables e s) = trace s @ evs"
    and a: "list_all (\<lambda>ev. \<exists>a b. stmt_of ev = Reorg a b) evs"
    by blast
  have "(\<exists>a b. stmt_of ev = Reorg a b) \<Longrightarrow> restore_attempt ev = None" for ev
    by (auto simp: restore_attempt_def)
  then have "list_all (\<lambda>ev. restore_attempt ev = None) evs"
    using a by (simp add: list_all_iff)
  then have "restore_attempts evs = []" by (rule no_attempt_list)
  then show ?thesis using t by (simp add: new_events_append)
qed

text \<open>A loop whose rounds each make at most one attempt, and exactly one when they succeed.\<close>

lemma fold_attempts:
  assumes st: "\<And>x. step P (F x)"
    and ok: "\<And>x s. err s = None \<Longrightarrow> err (F x s) = None \<Longrightarrow>
               restore_attempts (new_events s (F x s)) = [k x]"
    and bad: "\<And>x s. err s = None \<Longrightarrow> err (F x s) \<noteq> None \<Longrightarrow>
               prefix (restore_attempts (new_events s (F x s))) [k x]"
    and s: "err s = None"
  shows "prefix (restore_attempts (new_events s (fold F xs s))) (map k xs) \<and>
         (err (fold F xs s) = None \<longrightarrow> restore_attempts (new_events s (fold F xs s)) = map k xs)"
  using s
proof (induction xs arbitrary: s)
  case Nil
  then show ?case by simp
next
  case (Cons x xs)
  have sf: "step P (fold F xs)" by (rule step_fold) (rule st)
  have ne: "new_events s (fold F xs (F x s)) = new_events s (F x s) @ new_events (F x s) (fold F xs (F x s))"
    by (rule new_events_trans [OF st sf])
  show ?case
  proof (cases "err (F x s)")
    case None
    have h: "restore_attempts (new_events s (F x s)) = [k x]"
      by (rule ok [OF Cons.prems None])
    have ih: "prefix (restore_attempts (new_events (F x s) (fold F xs (F x s)))) (map k xs) \<and>
         (err (fold F xs (F x s)) = None \<longrightarrow>
          restore_attempts (new_events (F x s) (fold F xs (F x s))) = map k xs)"
      by (rule Cons.IH [OF None])
    show ?thesis using ih by (simp add: ne h)
  next
    case (Some z)
    then have e: "fold F xs (F x s) = F x s" using step_sticky [OF sf] by simp
    have p: "prefix (restore_attempts (new_events s (F x s))) [k x]"
      by (rule bad [OF Cons.prems]) (simp add: Some)
    have "prefix [k x] (k x # map k xs)" by simp
    with p have "prefix (restore_attempts (new_events s (F x s))) (k x # map k xs)"
      by (rule prefix_order.trans)
    then show ?thesis using Some by (simp add: e)
  qed
qed

lemma execute_attempts:
  "err s = None \<Longrightarrow> restore_stmt st \<Longrightarrow> restore_attempts (new_events s (execute e st s)) = [st]"
  by (simp add: execute_events restore_attempt_def)

lemma seq_attempts:
  assumes A: "step P A" and B: "step P B"
    and pa: "\<And>s. err s = None \<Longrightarrow> prefix (restore_attempts (new_events s (A s))) la \<and>
              (err (A s) = None \<longrightarrow> restore_attempts (new_events s (A s)) = la)"
    and pb: "\<And>s. err s = None \<Longrightarrow> prefix (restore_attempts (new_events s (B s))) lb \<and>
              (err (B s) = None \<longrightarrow> restore_attempts (new_events s (B s)) = lb)"
    and s: "err s = None"
  shows "prefix (restore_attempts (new_events s (B (A s)))) (la @ lb) \<and>
         (err (B (A s)) = None \<longrightarrow> restore_attempts (new_events s (B (A s))) = la @ lb)"
proof (cases "err (A s)")
  case None
  have ne: "new_events s (B (A s)) = new_events s (A s) @ new_events (A s) (B (A s))"
    by (rule new_events_trans [OF A B])
  have a: "restore_attempts (new_events s (A s)) = la" using pa [OF s] None by simp
  show ?thesis using pb [OF None] by (simp add: ne a)
next
  case (Some z)
  then have e: "B (A s) = A s" using step_sticky [OF B] by simp
  have "prefix (restore_attempts (new_events s (A s))) la" using pa [OF s] by simp
  then have "prefix (restore_attempts (new_events s (A s))) (la @ lb)"
    by (rule prefix_order.trans) simp
  then show ?thesis using Some by (simp add: e)
qed

lemma format_events [simp]: "new_events s (format e t ks s) = []"
  by (simp add: format_def raise_def new_events_def split: option.splits)

lemma execute_formatted_attempts:
  assumes s: "err s = None" and r: "restore_stmt st"
  shows "prefix (restore_attempts (new_events s (execute_formatted e t ks st s))) [st] \<and>
         (err (execute_formatted e t ks st s) = None \<longrightarrow>
          restore_attempts (new_events s (execute_formatted e t ks st s)) = [st])"
proof (cases "err (format e t ks s)")
  case None
  then have "format e t ks s = s"
    by (auto simp: format_def raise_def split: option.splits)
  then show ?thesis
    using s r by (simp add: execute_formatted_def execute_attempts)
next
  case (Some z)
  then have "execute_formatted e t ks st s = format e t ks s"
    by (simp add: execute_formatted_def execute_def)
  then show ?thesis using Some by simp
qed

lemma sql_create_pk_attempts:
  assumes s: "err s = None"
  shows "prefix (restore_attempts (new_events s (sql_create_pk e t n c s))) [CreatePk t n c] \<and>
         (err (sql_create_pk e t n c s) = None \<longrightarrow>
          restore_attempts (new_events s (sql_create_pk e t n c s)) = [CreatePk t n c])"
proof -
  have r: "step (\<lambda>st. True) (reorg_tables e)" by (rule step_reorg_tables) simp
  have x: "step (\<lambda>st. True) (execute e (CreatePk t n c))" by (rule step_execute) simp
  have ne: "new_events s (execute e (CreatePk t n c) (reorg_tables e s)) =
            new_events s (reorg_tables e s) @
            new_events (reorg_tables e s) (execute e (CreatePk t n c) (reorg_tables e s))"
    by (rule new_events_trans [OF r x])
  show ?thesis
  proof (cases "err (reorg_tables e s)")
    case None
    then show ?thesis
      by (simp add: sql_create_pk_def ne reorg_events_no_attempt execute_attempts)
  next
    case (Some z)
    then have "execute e (CreatePk t n c) (reorg_tables e s) = reorg_tables e s"
      using step_sticky [OF x] by simp
    then show ?thesis using Some
      by (simp add: sql_create_pk_def reorg_events_no_attempt)
  qed
qed

lemma restore_steps:
  "step plain (fold (\<lambda>(pk_name, cols). sql_create_pk e table pk_name (restored_columns oc nc cols)) xs)"
  "step plain (execute_each_formatted e SqlCreateUnique [''table'', ''name'', ''columns'']
     (\<lambda>(n, cols). CreateUnique table n (restored_columns oc nc cols)) ys)"
  "step plain (execute_each_formatted e SqlCreateIndex [''table'', ''name'', ''columns'', ''extra'']
     (\<lambda>(n, cols). CreateIndex table n (restored_columns oc nc cols) []) zs)"
proof -
  show "step plain (fold (\<lambda>(pk_name, cols). sql_create_pk e table pk_name (restored_columns oc nc cols)) xs)"
    by (rule step_fold) (simp add: step_sql_create_pk split: prod.split)
  show "step plain (execute_each_formatted e SqlCreateUnique [''table'', ''name'', ''columns'']
     (\<lambda>(n, cols). CreateUnique table n (restored_columns oc nc cols)) ys)"
    by (rule step_execute_each_formatted) (simp split: prod.split)
  show "step plain (execute_each_formatted e SqlCreateIndex [''table'', ''name'', ''columns'', ''extra'']
     (\<lambda>(n, cols). CreateIndex table n (restored_columns oc nc cols) []) zs)"
    by (rule step_execute_each_formatted) (simp split: prod.split)
qed

lemma step_restore_constraints_check:
  "step plain (restore_constraints_check e d oc nc table)"
proof -
  note a = step_comp [OF restore_steps(1) restore_steps(2)]
  note b = step_comp [OF a restore_steps(3)]
  show ?thesis
    unfolding restore_constraints_check_def [abs_def] Let_def by (rule b)
qed

lemma execute_each_attempts:
  assumes f: "\<And>x. restore_stmt (f x)" and s: "err s = None"
  shows "prefix (restore_attempts (new_events s (execute_each_formatted e t ks f xs s))) (map f xs) \<and>
         (err (execute_each_formatted e t ks f xs s) = None \<longrightarrow>
          restore_attempts (new_events s (execute_each_formatted e t ks f xs s)) = map f xs)"
  unfolding execute_each_formatted_def
  by (rule fold_attempts [where P = "\<lambda>st. True"])
     (simp_all add: step_execute_formatted execute_formatted_attempts f s)

lemma restore_attempts_plan:
  assumes s: "err s = None"
  shows "prefix (restore_attempts (new_events s (restore_constraints_check e d oc nc table s)))
           (restore_plan d oc nc table) \<and>
         (err (restore_constraints_check e d oc nc table s) = None \<longrightarrow>
          restore_attempts (new_events s (restore_constraints_check e d oc nc table s)) =
            restore_plan d oc nc table)"
proof -
  let ?A = "fold (\<lambda>(pk_name, cols). sql_create_pk e table pk_name (restored_columns oc nc cols)) (d_pk d)"
  let ?B = "execute_each_formatted e SqlCreateUnique [''table'', ''name'', ''columns'']
              (\<lambda>(n, cols). CreateUnique table n (restored_columns oc nc cols)) (d_unique d)"
  let ?C = "execute_each_formatted e SqlCreateIndex [''table'', ''name'', ''columns'', ''extra'']
              (\<lambda>(n, cols). CreateIndex table n (restored_columns oc nc cols) []) (d_index d)"
  let ?la = "map (\<lambda>(n, cols). CreatePk table n (restored_columns oc nc cols)) (d_pk d)"
  let ?lb = "map (\<lambda>(n, cols). CreateUnique table n (restored_columns oc nc cols)) (d_unique d)"
  let ?lc = "map (\<lambda>(n, cols). CreateIndex table n (restored_columns oc nc cols) []) (d_index d)"
  have pa: "prefix (restore_attempts (new_events s (?A s))) ?la \<and>
            (err (?A s) = None \<longrightarrow> restore_attempts (new_events s (?A s)) = ?la)"
    if "err s = None" for s
    by (rule fold_attempts [where P = plain])
       (auto simp: step_sql_create_pk sql_create_pk_attempts that split: prod.split)
  have pb: "prefix (restore_attempts (new_events s (?B s))) ?lb \<and>
            (err (?B s) = None \<longrightarrow> restore_attempts (new_events s (?B s)) = ?lb)"
    if "err s = None" for s
    by (rule execute_each_attempts) (simp_all add: that split: prod.split)
  have pc: "prefix (restore_attempts (new_events s (?C s))) ?lc \<and>
            (err (?C s) = None \<longrightarrow> restore_attempts (new_events s (?C s)) = ?lc)"
    if "err s = None" for s
    by (rule execute_each_attempts) (simp_all add: that split: prod.split)
  have ab: "prefix (restore_attempts (new_events s (?B (?A s)))) (?la @ ?lb) \<and>
            (err (?B (?A s)) = None \<longrightarrow> restore_attempts (new_events s (?B (?A s))) = ?la @ ?lb)"
    if "err s = None" for s
    by (rule seq_attempts [OF restore_steps(1) restore_steps(2) pa pb that])
  have abc: "prefix (restore_attempts (new_events s (?C (?B (?A s))))) ((?la @ ?lb) @ ?lc) \<and>
            (err (?C (?B (?A s))) = None \<longrightarrow>
             restore_attempts (new_events s (?C (?B (?A s)))) = (?la @ ?lb) @ ?lc)"
    by (rule seq_attempts [OF step_comp [OF restore_steps(1) restore_steps(2)] restore_steps(3) ab pc s])
  then show ?thesis
    by (simp add: restore_constraints_check_def Let_def restore_plan_def)
qed

section \<open>The value formatter\<close>

text \<open>
  C8. \<open>quote_value\<close> gives, for a text, a date, a time or a datetime, the value between
  quotes with every quote character of it doubled, so that the quoted body has no
  unescaped quote; for a boolean \<open>1\<close> or \<open>0\<close>; for a UUID its text between quotes; for
  bytes the hexadecimal literal \<open>BLOB(X'..')\<close>, so \<open>BLOB(X'ab')\<close> for the byte \<open>0xAB\<close>; for a
  duration of a whole number \<open>n\<close> of seconds the float text \<open>n.0\<close>, so \<open>90.0\<close> for 90
  seconds; and for the other kinds the value's \<open>str\<close> text.
\<close>

theorem quote_value_kinds:
  "quote_value sf (PyStr s) = [quote_char] @ double_quotes s @ [quote_char]
   \<and> quote_value sf (PyDate s) = [quote_char] @ double_quotes s @ [quote_char]
   \<and> quote_value sf (PyTime s) = [quote_char] @ double_quotes s @ [quote_char]
   \<and> quote_value sf (PyDateTime s) = [quote_char] @ double_quotes s @ [quote_char]
   \<and> quotes_paired (double_quotes s)
   \<and> quote_value sf (PyBool True) = ''1''
   \<and> quote_value sf (PyBool False) = ''0''
   \<and> quote_value sf (PyUUID u) = [quote_char] @ u @ [quote_char]
   \<and> quote_value sf (PyBytes bs) = ''BLOB(X'' @ [quote_char] @ bytes_hex bs @ [quote_char] @ '')''
   \<and> quote_value sf (PyBytes [0xAB]) = ''BLOB(X'ab')''
   \<and> quote_value sf (PyTimedelta (n * 1000000)) = str_int n @ ''.0''
   \<and> quote_value sf (PyTimedelta 90000000) = ''90.0''
   \<and> quote_value sf (PyInt i) = py_str (PyInt i)
   \<and> quote_value sf PyNone = py_str PyNone
   \<and> quote_value sf (PyOther t) = py_str (PyOther t)"
  by (simp add: escape_quotes_double quotes_paired_double timedelta_seconds_text_def str_int_def
      str_nat.simps bytes_hex_def hex_byte_def digit_char_def quote_char_def)

section \<open>The restoration rewrites column names by substring\<close>

text \<open>
  With the templates of Django 2.2 the restoration of an index raises \<^verbatim>\<open>KeyError\<close> for the
  placeholder \<^verbatim>\<open>condition\<close>, before any statement.
\<close>

lemma restore_index_key_error:
  "restore_constraints_check (accept_all\<lparr>placeholders := placeholders_2_2\<rparr>)
     \<lparr>d_pk = [], d_unique = [], d_index = [(''ix'', [''user_id''])], d_check = []\<rparr>
     ''id'' ''pk'' ''t'' start = \<lparr>trace = [], err = Some (KeyError ''condition'')\<rparr>"
  by (simp add: restore_constraints_check_def execute_each_formatted_def execute_formatted_def
      format_def raise_def execute_def accept_all_def placeholders_2_2_def start_def)

text \<open>
  C10. The attempts of the restoration are, in this order, the create statements of the
  deferred primary keys, unique constraints and indexes, each on the recorded column list
  with \<open>py_replace\<close> applied to every column name separately: all of them when the
  restoration runs to its end, the first of them when a statement or the formatting of
  a template fails. The replacement is by substring: when the old name is not empty and
  differs from the new one, every column name that contains the old name, also as a
  proper substring, is changed, although only the column called by the old name was
  renamed.
\<close>

theorem restore_rewrites_substrings:
  assumes "err s = None" and "old_column \<noteq> []" and "old_column \<noteq> new_column"
  shows "prefix (restore_attempts (new_events s (restore_constraints_check e d old_column new_column table s)))
           (map (\<lambda>(n, cols). CreatePk table n
                  (py_join '', '' (map (\<lambda>c. py_replace c old_column new_column) cols))) (d_pk d) @
            map (\<lambda>(n, cols). CreateUnique table n
                  (py_join '', '' (map (\<lambda>c. py_replace c old_column new_column) cols))) (d_unique d) @
            map (\<lambda>(n, cols). CreateIndex table n
                  (py_join '', '' (map (\<lambda>c. py_replace c old_column new_column) cols)) []) (d_index d))
         \<and> (err (restore_constraints_check e d old_column new_column table s) = None \<longrightarrow>
            restore_attempts (new_events s (restore_constraints_check e d old_column new_column table s)) =
              map (\<lambda>(n, cols). CreatePk table n
                     (py_join '', '' (map (\<lambda>c. py_replace c old_column new_column) cols))) (d_pk d) @
              map (\<lambda>(n, cols). CreateUnique table n
                     (py_join '', '' (map (\<lambda>c. py_replace c old_column new_column) cols))) (d_unique d) @
              map (\<lambda>(n, cols). CreateIndex table n
                     (py_join '', '' (map (\<lambda>c. py_replace c old_column new_column) cols)) []) (d_index d))
         \<and> (\<forall>u v. py_replace (u @ old_column @ v) old_column new_column \<noteq> u @ old_column @ v)"
  using restore_attempts_plan [OF assms(1), where e = e and d = d and oc = old_column and nc = new_column and table = table] assms
  by (simp add: restore_plan_def restored_columns_def py_replace_changes)

theorem restore_rewrites_substrings_witness:
  "err start = None \<and> ''id'' \<noteq> [] \<and> ''id'' \<noteq> ''pk''
   \<and> err (restore_constraints_check accept_all
            \<lparr>d_pk = [(''pk1'', [''id''])], d_unique = [(''uq'', [''id'', ''user_id''])],
             d_index = [(''ix'', [''user_id'', ''paid''])], d_check = []\<rparr>
            ''id'' ''pk'' ''t'' start) = None
   \<and> restore_attempts (new_events start (restore_constraints_check accept_all
            \<lparr>d_pk = [(''pk1'', [''id''])], d_unique = [(''uq'', [''id'', ''user_id''])],
             d_index = [(''ix'', [''user_id'', ''paid''])], d_check = []\<rparr>
            ''id'' ''pk'' ''t'' start)) =
         [CreatePk ''t'' ''pk1'' ''pk'', CreateUnique ''t'' ''uq'' ''pk, user_pk'',
          CreateIndex ''t'' ''ix'' ''user_pk, papk'' []]
   \<and> py_replace ''user_id'' ''id'' ''pk'' \<noteq> ''user_id''"
proof -
  have e: "err (restore_constraints_check accept_all
            \<lparr>d_pk = [(''pk1'', [''id''])], d_unique = [(''uq'', [''id'', ''user_id''])],
             d_index = [(''ix'', [''user_id'', ''paid''])], d_check = []\<rparr>
            ''id'' ''pk'' ''t'' start) = None"
    by (simp add: restore_constraints_check_def execute_each_formatted_def execute_formatted_def
        format_def raise_def sql_create_pk_def reorg_tables_def execute_each_def execute_def
        accept_all_def start_def)
  have r: "py_replace ''id'' ''id'' ''pk'' = ''pk''" "py_replace ''user_id'' ''id'' ''pk'' = ''user_pk''"
    "py_replace ''paid'' ''id'' ''pk'' = ''papk''"
    by (simp_all add: py_replace_def replace_all.simps)
  have s: "err start = None" by (simp add: start_def)
  have n: "''id'' \<noteq> []" "''id'' \<noteq> ''pk''" by simp_all
  show ?thesis
    using restore_rewrites_substrings [OF s n, where e = accept_all and table = "''t''"
        and d = "\<lparr>d_pk = [(''pk1'', [''id''])], d_unique = [(''uq'', [''id'', ''user_id''])],
             d_index = [(''ix'', [''user_id'', ''paid''])], d_check = []\<rparr>"] e s
    by (simp add: r)
qed

section \<open>Failures while deferring\<close>

lemma keys_dict_set [simp]: "keys (dict_set k v d) = insert k (keys d)"
  by (induction d) (auto simp: keys_def)

lemma keys_Nil [simp]: "keys [] = {}"
  by (simp add: keys_def)











lemma err_None_update: "err st = None \<Longrightarrow> st\<lparr>err := None\<rparr> = st"
  by simp


text \<open>What a round can record.\<close>

lemma defer_one_fst_cases:
  fixes e oc table dp du di dc n c d s
  defines "R \<equiv> fst (defer_one e oc table dp du di dc (n, c) (d, s))"
  obtains (same) "R = d"
  | (pk) "dp \<and> c_primary_key c \<and> oc \<in> set (columns c)"
      "R = d\<lparr>d_pk := dict_set n (columns c) (d_pk d)\<rparr>"
  | (uq) "\<not> (dp \<and> c_primary_key c \<and> oc \<in> set (columns c))"
      "R = d\<lparr>d_unique := dict_set n (columns c) (d_unique d)\<rparr>"
  | (ix) "\<not> (dp \<and> c_primary_key c \<and> oc \<in> set (columns c))"
      "\<not> (du \<and> c_unique c \<and> oc \<in> set (columns c))"
      "R = d\<lparr>d_index := dict_set n (columns c) (d_index d)\<rparr>"
  | (ck) "\<not> (dp \<and> c_primary_key c \<and> oc \<in> set (columns c))"
      "\<not> (du \<and> c_unique c \<and> oc \<in> set (columns c))"
      "R = d\<lparr>d_check := dict_set n (columns c) (d_check d)\<rparr>"
  | (ixck) "\<not> (dp \<and> c_primary_key c \<and> oc \<in> set (columns c))"
      "\<not> (du \<and> c_unique c \<and> oc \<in> set (columns c))"
      "R = d\<lparr>d_index := dict_set n (columns c) (d_index d),
             d_check := dict_set n (columns c) (d_check d)\<rparr>"
proof (cases "err s \<noteq> None")
  case True
  then have "R = d" by (simp add: R_def defer_one_def)
  then show ?thesis by (rule same)
next
  case e: False
  show ?thesis
  proof (cases "dp \<and> c_primary_key c \<and> oc \<in> set (columns c)")
    case True
    then have "R = d \<or> R = d\<lparr>d_pk := dict_set n (columns c) (d_pk d)\<rparr>"
      using e by (auto simp: R_def defer_one_def Let_def)
    then show ?thesis using True same pk by blast
  next
    case np: False
    show ?thesis
    proof (cases "du \<and> c_unique c \<and> oc \<in> set (columns c)")
      case True
      then have "R = d \<or> R = d\<lparr>d_unique := dict_set n (columns c) (d_unique d)\<rparr>"
        using e np by (auto simp: R_def defer_one_def Let_def)
      then show ?thesis using np same uq by blast
    next
      case nu: False
      have "R = d \<or> R = d\<lparr>d_index := dict_set n (columns c) (d_index d)\<rparr> \<or>
            R = d\<lparr>d_check := dict_set n (columns c) (d_check d)\<rparr> \<or>
            R = d\<lparr>d_index := dict_set n (columns c) (d_index d),
                   d_check := dict_set n (columns c) (d_check d)\<rparr>"
        using e np nu by (auto simp: R_def defer_one_def Let_def)
      then show ?thesis using np nu same ix ck ixck by blast
    qed
  qed
qed






section \<open>The kinds under which a constraint is deferred\<close>

lemma distinct_dict_set:
  "distinct (map fst d) \<Longrightarrow> distinct (map fst (dict_set k v d))"
proof (induction d)
  case Nil then show ?case by simp
next
  case (Cons p d)
  have "set (map fst (dict_set k v d)) = insert k (set (map fst d))"
    using keys_dict_set [of k v d] by (simp add: keys_def)
  then show ?case using Cons by auto
qed

lemma defer_one_inv:
  assumes "defer_inv seen (fst ds)" and "n \<notin> seen"
  shows "defer_inv (insert n seen) (fst (defer_one e oc table dp du di dc (n, c) ds))"
proof -
  obtain d s where ds: "ds = (d, s)" by (cases ds)
  have i: "defer_inv seen d" using assms ds by simp
  have k: "n \<notin> keys (d_pk d)" "n \<notin> keys (d_unique d)" "n \<notin> keys (d_index d)" "n \<notin> keys (d_check d)"
    using i assms(2) unfolding defer_inv_def by auto
  have "defer_inv (insert n seen) (fst (defer_one e oc table dp du di dc (n, c) (d, s)))"
  proof (cases rule: defer_one_fst_cases [of e oc table dp du di dc n c d s])
    case same
    then show ?thesis using i unfolding defer_inv_def by auto
  next
    case pk
    then show ?thesis using i k unfolding defer_inv_def by (auto simp: distinct_dict_set)
  next
    case uq
    then show ?thesis using i k unfolding defer_inv_def by (auto simp: distinct_dict_set)
  next
    case ix
    then show ?thesis using i k unfolding defer_inv_def by (auto simp: distinct_dict_set)
  next
    case ck
    then show ?thesis using i k unfolding defer_inv_def by (auto simp: distinct_dict_set)
  next
    case ixck
    then show ?thesis using i k unfolding defer_inv_def by (auto simp: distinct_dict_set)
  qed
  then show ?thesis by (simp add: ds)
qed

lemma defer_fold_inv:
  "distinct (map fst cs) \<Longrightarrow> set (map fst cs) \<inter> seen = {} \<Longrightarrow> defer_inv seen (fst ds) \<Longrightarrow>
   defer_inv (seen \<union> set (map fst cs)) (fst (fold (defer_one e oc table dp du di dc) cs ds))"
proof (induction cs arbitrary: seen ds)
  case Nil
  then show ?case by simp
next
  case (Cons entry cs)
  obtain n c where en: "entry = (n, c)" by (cases entry)
  have n: "n \<notin> seen" using Cons.prems(2) en by auto
  have 1: "defer_inv (insert n seen) (fst (defer_one e oc table dp du di dc (n, c) ds))"
    by (rule defer_one_inv [OF Cons.prems(3) n])
  have 2: "distinct (map fst cs)" using Cons.prems(1) by simp
  have 3: "set (map fst cs) \<inter> insert n seen = {}" using Cons.prems(1,2) en by auto
  have "defer_inv (insert n seen \<union> set (map fst cs))
          (fst (fold (defer_one e oc table dp du di dc) cs (defer_one e oc table dp du di dc (n, c) ds)))"
    by (rule Cons.IH [OF 2 3 1])
  moreover have "insert n seen \<union> set (map fst cs) = seen \<union> set (map fst (entry # cs))"
    using en by auto
  ultimately show ?case using en by simp
qed

lemma defer_inv_result:
  "distinct (map fst cs) \<Longrightarrow>
   defer_inv (set (map fst cs)) (fst (defer_constraints_check e cs no_deferred oc nc table dp du di dc s))"
proof -
  assume d: "distinct (map fst cs)"
  have "defer_inv {} (fst (no_deferred, s))"
    by (simp add: defer_inv_def no_deferred_def)
  from defer_fold_inv [OF d _ this, of e oc table dp du di dc] show ?thesis
    by (simp add: defer_constraints_check_def)
qed

lemma same_key_same_value:
  "distinct (map fst xs) \<Longrightarrow> (k, v) \<in> set xs \<Longrightarrow> (k, v') \<in> set xs \<Longrightarrow> v' = v"
  by (induction xs) (auto simp: image_iff)

lemma defer_one_not_pk:
  assumes d: "distinct (map fst catalog)" and m: "(n, c) \<in> set catalog"
    and i: "not_pk_entries catalog dp oc (fst ds)"
  shows "not_pk_entries catalog dp oc (fst (defer_one e oc table dp du di dc (n, c) ds))"
proof -
  obtain d0 s where ds: "ds = (d0, s)" by (cases ds)
  have i0: "not_pk_entries catalog dp oc d0" using i ds by simp
  have u: "(n, c') \<in> set catalog \<Longrightarrow> c' = c" for c'
    using same_key_same_value [OF d m] by blast
  have "not_pk_entries catalog dp oc (fst (defer_one e oc table dp du di dc (n, c) (d0, s)))"
  proof (cases rule: defer_one_fst_cases [of e oc table dp du di dc n c d0 s])
    case same
    then show ?thesis using i0 by simp
  next
    case pk
    then show ?thesis using i0 unfolding not_pk_entries_def by simp
  next
    case uq
    then show ?thesis using i0 u unfolding not_pk_entries_def by auto
  next
    case ix
    then show ?thesis using i0 u unfolding not_pk_entries_def by auto
  next
    case ck
    then show ?thesis using i0 u unfolding not_pk_entries_def by auto
  next
    case ixck
    then show ?thesis using i0 u unfolding not_pk_entries_def by auto
  qed
  then show ?thesis by (simp add: ds)
qed

lemma defer_fold_not_pk:
  "distinct (map fst catalog) \<Longrightarrow> set cs \<subseteq> set catalog \<Longrightarrow> not_pk_entries catalog dp oc (fst ds) \<Longrightarrow>
   not_pk_entries catalog dp oc (fst (fold (defer_one e oc table dp du di dc) cs ds))"
proof (induction cs arbitrary: ds)
  case Nil
  then show ?case by simp
next
  case (Cons entry cs)
  obtain n c where en: "entry = (n, c)" by (cases entry)
  have m: "(n, c) \<in> set catalog" using Cons.prems(2) en by simp
  have 1: "not_pk_entries catalog dp oc (fst (defer_one e oc table dp du di dc (n, c) ds))"
    by (rule defer_one_not_pk [OF Cons.prems(1) m Cons.prems(3)])
  have 2: "set cs \<subseteq> set catalog" using Cons.prems(2) by simp
  show ?case using Cons.IH [OF Cons.prems(1) 2 1] en by simp
qed

lemma defer_not_pk_result:
  "distinct (map fst cs) \<Longrightarrow>
   not_pk_entries cs dp oc (fst (defer_constraints_check e cs no_deferred oc nc table dp du di dc s))"
proof -
  assume d: "distinct (map fst cs)"
  have "not_pk_entries cs dp oc (fst (no_deferred, s))"
    by (simp add: not_pk_entries_def no_deferred_def)
  from defer_fold_not_pk [OF d subset_refl this, of e table du di dc] show ?thesis
    by (simp add: defer_constraints_check_def)
qed

lemma restore_name_plan:
  "map restore_name (restore_plan d oc nc table) = map fst (d_pk d) @ map fst (d_unique d) @ map fst (d_index d)"
  by (simp add: restore_plan_def split_def comp_def)

lemma defer_inv_distinct_plan:
  "defer_inv seen d \<Longrightarrow> distinct (map restore_name (restore_plan d oc nc table))"
  unfolding restore_name_plan defer_inv_def keys_def by auto

text \<open>
  C9, as the claim states it, fails: an entry of the catalog flagged both as index and as
  check, on the column, is recorded under the index kind and under the check kind.
\<close>

theorem defer_two_kinds_counterexample:
  "''c1'' \<in> keys (d_index (fst (defer_constraints_check accept_all
        [(''c1'', a_constraint [''a''] False False True True)]
        no_deferred ''a'' ''b'' ''t'' True True True True start)))
   \<and> ''c1'' \<in> keys (d_check (fst (defer_constraints_check accept_all
        [(''c1'', a_constraint [''a''] False False True True)]
        no_deferred ''a'' ''b'' ''t'' True True True True start)))"
  by (simp add: defer_constraints_check_def defer_one_def execute_formatted_def format_def raise_def
      execute_def accept_all_def start_def a_constraint_def no_deferred_def Let_def keys_def)


text \<open>
  C9, amended. For a catalog with distinct names, deferred from the empty set: no name is
  recorded as primary key and under another kind, and none as unique and also as index
  or check; an entry flagged as primary key that touches the column, with primary keys
  deferred, is recorded neither as unique, nor as index, nor as check; and the
  restoration of the deferred set attempts no constraint name twice. (Only the index and
  the check kind can hold the same name, and the restoration does not read the check
  kind.)
\<close>

theorem deferred_kinds:
  assumes "distinct (map fst constraints)"
  shows
    "keys (d_pk (fst (defer_constraints_check e constraints no_deferred old_column new_column table
                       defer_pk defer_unique defer_index defer_check s)))
       \<inter> (keys (d_unique (fst (defer_constraints_check e constraints no_deferred old_column new_column
                       table defer_pk defer_unique defer_index defer_check s)))
          \<union> keys (d_index (fst (defer_constraints_check e constraints no_deferred old_column new_column
                       table defer_pk defer_unique defer_index defer_check s)))
          \<union> keys (d_check (fst (defer_constraints_check e constraints no_deferred old_column new_column
                       table defer_pk defer_unique defer_index defer_check s)))) = {}
     \<and> keys (d_unique (fst (defer_constraints_check e constraints no_deferred old_column new_column table
                       defer_pk defer_unique defer_index defer_check s)))
       \<inter> (keys (d_index (fst (defer_constraints_check e constraints no_deferred old_column new_column
                       table defer_pk defer_unique defer_index defer_check s)))
          \<union> keys (d_check (fst (defer_constraints_check e constraints no_deferred old_column new_column
                       table defer_pk defer_unique defer_index defer_check s)))) = {}
     \<and> ((name, c) \<in> set constraints \<and> defer_pk \<and> c_primary_key c \<and> old_column \<in> set (columns c) \<longrightarrow>
          name \<notin> keys (d_unique (fst (defer_constraints_check e constraints no_deferred old_column
                       new_column table defer_pk defer_unique defer_index defer_check s)))
        \<and> name \<notin> keys (d_index (fst (defer_constraints_check e constraints no_deferred old_column
                       new_column table defer_pk defer_unique defer_index defer_check s)))
        \<and> name \<notin> keys (d_check (fst (defer_constraints_check e constraints no_deferred old_column
                       new_column table defer_pk defer_unique defer_index defer_check s))))
     \<and> (err s' = None \<longrightarrow>
          distinct (map restore_name (restore_attempts (new_events s'
            (restore_constraints_check e
               (fst (defer_constraints_check e constraints no_deferred old_column new_column table
                       defer_pk defer_unique defer_index defer_check s))
               old_column new_column table s')))))"
proof -
  let ?D = "fst (defer_constraints_check e constraints no_deferred old_column new_column table
                       defer_pk defer_unique defer_index defer_check s)"
  have i: "defer_inv (set (map fst constraints)) ?D"
    by (rule defer_inv_result [OF assms])
  have p: "not_pk_entries constraints defer_pk old_column ?D"
    by (rule defer_not_pk_result [OF assms])
  have 1: "keys (d_pk ?D) \<inter> (keys (d_unique ?D) \<union> keys (d_index ?D) \<union> keys (d_check ?D)) = {}"
    using i unfolding defer_inv_def by blast
  have 2: "keys (d_unique ?D) \<inter> (keys (d_index ?D) \<union> keys (d_check ?D)) = {}"
    using i unfolding defer_inv_def by blast
  have 3: "(name, c) \<in> set constraints \<and> defer_pk \<and> c_primary_key c \<and> old_column \<in> set (columns c) \<longrightarrow>
          name \<notin> keys (d_unique ?D) \<and> name \<notin> keys (d_index ?D) \<and> name \<notin> keys (d_check ?D)"
    using p unfolding not_pk_entries_def by blast
  have 4: "err s' = None \<longrightarrow>
          distinct (map restore_name (restore_attempts (new_events s'
            (restore_constraints_check e ?D old_column new_column table s'))))"
  proof
    assume s': "err s' = None"
    have "prefix (restore_attempts (new_events s' (restore_constraints_check e ?D old_column new_column table s')))
            (restore_plan ?D old_column new_column table)"
      using restore_attempts_plan [OF s', where e = e and d = ?D and oc = old_column
          and nc = new_column and table = table] by simp
    then have "prefix (map restore_name (restore_attempts (new_events s'
                 (restore_constraints_check e ?D old_column new_column table s'))))
               (map restore_name (restore_plan ?D old_column new_column table))"
      by (rule map_mono_prefix)
    moreover have "distinct (map restore_name (restore_plan ?D old_column new_column table))"
      by (rule defer_inv_distinct_plan [OF i])
    ultimately show "distinct (map restore_name (restore_attempts (new_events s'
            (restore_constraints_check e ?D old_column new_column table s'))))"
      by (auto simp: prefix_def)
  qed
  show ?thesis using 1 2 3 4 by blast
qed

theorem deferred_kinds_witness:
  "distinct (map fst [(''c1'', a_constraint [''a''] True True True False),
                      (''c2'', a_constraint [''a'', ''b''] False True True False)])
   \<and> d_pk (fst (defer_constraints_check accept_all
        [(''c1'', a_constraint [''a''] True True True False),
         (''c2'', a_constraint [''a'', ''b''] False True True False)]
        no_deferred ''a'' ''z'' ''t'' True True True True start)) = [(''c1'', [''a''])]
   \<and> ''c1'' \<notin> keys (d_unique (fst (defer_constraints_check accept_all
        [(''c1'', a_constraint [''a''] True True True False),
         (''c2'', a_constraint [''a'', ''b''] False True True False)]
        no_deferred ''a'' ''z'' ''t'' True True True True start)))
   \<and> ''c1'' \<notin> keys (d_index (fst (defer_constraints_check accept_all
        [(''c1'', a_constraint [''a''] True True True False),
         (''c2'', a_constraint [''a'', ''b''] False True True False)]
        no_deferred ''a'' ''z'' ''t'' True True True True start)))
   \<and> err start = None
   \<and> distinct (map restore_name (restore_attempts (new_events start
        (restore_constraints_check accept_all
           (fst (defer_constraints_check accept_all
              [(''c1'', a_constraint [''a''] True True True False),
               (''c2'', a_constraint [''a'', ''b''] False True True False)]
              no_deferred ''a'' ''z'' ''t'' True True True True start))
           ''a'' ''z'' ''t'' start))))"
proof -
  have d: "distinct (map fst [(''c1'', a_constraint [''a''] True True True False),
                      (''c2'', a_constraint [''a'', ''b''] False True True False)])"
    by simp
  have v: "d_pk (fst (defer_constraints_check accept_all
        [(''c1'', a_constraint [''a''] True True True False),
         (''c2'', a_constraint [''a'', ''b''] False True True False)]
        no_deferred ''a'' ''z'' ''t'' True True True True start)) = [(''c1'', [''a''])]"
    by (simp add: defer_constraints_check_def defer_one_def execute_formatted_def format_def
      raise_def execute_def accept_all_def start_def a_constraint_def no_deferred_def Let_def)
  have m: "(''c1'', a_constraint [''a''] True True True False) \<in>
     set [(''c1'', a_constraint [''a''] True True True False),
          (''c2'', a_constraint [''a'', ''b''] False True True False)]"
    by simp
  have f: "c_primary_key (a_constraint [''a''] True True True False)"
    "''a'' \<in> set (columns (a_constraint [''a''] True True True False))"
    by (simp_all add: a_constraint_def)
  have s: "err start = None" by (simp add: start_def)
  show ?thesis
    using deferred_kinds [OF d, where e = accept_all and name = "''c1''"
        and c = "a_constraint [''a''] True True True False" and old_column = "''a''"
        and new_column = "''z''" and table = "''t''" and defer_pk = True and defer_unique = True
        and defer_index = True and defer_check = True and s = start and s' = start]
      d v m f s
    by simp
qed

section \<open>Check constraints are deferred and not restored\<close>

text \<open>The restoration does not read the dictionary of check constraints.\<close>

lemma restore_ignores_checks:
  "restore_constraints_check e (d\<lparr>d_check := checks\<rparr>) old_column new_column table s =
     restore_constraints_check e d old_column new_column table s"
  by (simp add: restore_constraints_check_def)

text \<open>
  C1 fails for the check kind. The column \<^verbatim>\<open>qty\<close> of the table \<^verbatim>\<open>t\<close> goes from \<^verbatim>\<open>INTEGER\<close> to
  \<^verbatim>\<open>SMALLINT\<close>; its check is the same before and after, so the planner neither drops nor
  adds a check itself. The deferral drops the constraint \<^verbatim>\<open>qty_check\<close> that the catalog
  lists for the column, the type is changed, and the call ends without error and
  without any statement that creates a check constraint: the constraint is lost.
\<close>

theorem retype_loses_check_constraint:
  "alter_field qty_catalog ''t'' qty_integer qty_smallint False start =
     \<lparr>trace = [Done (DeleteCheck ''t'' ''qty_check''),
               Done (AlterColumn ''t'' (SetDataType ''qty'' ''SMALLINT''))],
      err = None\<rparr>"
  by (simp add: alter_field_def rel_condition_def remake_needed_def alter_plan_def diff_flags_def
      rebuild_incomming_fk_flag_def alter_incomming_fk_data_type_flag_def
      drop_steps_def drop_primary_key_def drop_unique_def drop_index_def drop_check_def
      drop_nullability_def drop_foreign_keys_def rename_and_retype_def change_field_type_def
      defer_constraints_check_def defer_one_def restore_constraints_check_def
      change_default_def change_nullability_def add_check_def add_key_def incoming_relations_def
      update_incoming_def rebuild_foreign_key_def rebuild_incoming_fks_def alter_column_def
      execute_formatted_def execute_each_formatted_def format_def raise_def
      execute_def execute_each_def reorg_tables_def unique_def has_default_def text_of_def truthy_def
      qty_catalog_def qty_integer_def qty_smallint_def accept_all_def start_def a_field_def
      a_constraint_def no_deferred_def Let_def)

end
